theory Spec2Isabelle
  imports Main "HOL-Library.AList" "HOL-Library.Multiset"
begin

section \<open>Exceptions\<close>

text \<open>
  A raised Python exception is identified by its class. Only the classes that the two
  source files name in an \<^verbatim>\<open>except\<close> clause (or that the interpreter raises in them)
  are distinguished; \<open>PyException\<close> stands for an exception of any other class derived from
  \<^verbatim>\<open>Exception\<close>. \<open>exc_mro\<close> lists a class with its base classes, so that
  \<^verbatim>\<open>except C\<close> catches \<open>e\<close> exactly when \<open>exc_isinstance e C\<close>.
\<close>

datatype exc_class =
    PyException
  | KeyError
  | TypeError
  | MessagingTimeout
  | NeutronException
  | DriverException
  | PortNotFound

fun exc_mro :: "exc_class \<Rightarrow> exc_class list" where
  "exc_mro PyException = [PyException]"
| "exc_mro KeyError = [KeyError, PyException]"
| "exc_mro TypeError = [TypeError, PyException]"
| "exc_mro MessagingTimeout = [MessagingTimeout, PyException]"
| "exc_mro NeutronException = [NeutronException, PyException]"
| "exc_mro DriverException = [DriverException, NeutronException, PyException]"
| "exc_mro PortNotFound = [PortNotFound, NeutronException, PyException]"

definition exc_isinstance :: "exc_class \<Rightarrow> exc_class \<Rightarrow> bool" where
  "exc_isinstance e c = (c \<in> set (exc_mro e))"

section \<open>Ports\<close>

text \<open>
  A port dictionary, with the two keys the code reads: \<^verbatim>\<open>p['id']\<close> and
  \<^verbatim>\<open>p['admin_state_up']\<close>.
\<close>

record port =
  p_id :: string
  p_admin_state_up :: bool

section \<open>hw\_vlan\_trunking\_driver: deletion of hosting device resources\<close>

definition DELETION_ATTEMPTS :: nat where
  "DELETION_ATTEMPTS = 5"

definition SECONDS_BETWEEN_DELETION_ATTEMPTS :: nat where
  "SECONDS_BETWEEN_DELETION_ATTEMPTS = 3"

text \<open>What the driver does that is visible from outside: calls of the deleter, sleeps and log lines.\<close>

datatype hw_event =
    DeleterCall string
  | Sleep nat
  | LogAttemptStarting nat
  | LogAbortWarning nat
  | LogSucceeded
  | LogDeleteFailed string

text \<open>
  \<^verbatim>\<open>_delete_resources(context, name, deleter, exception_type, resource_ids)\<close>.
  The deleter is a callable of the core plugin: given an id it returns (\<open>None\<close>) or raises
  (\<open>Some e\<close>). A Python set is a list without duplicates whose order is the iteration order
  (which Python leaves unspecified). The loop runs over a copy of the set (first list) and
  removes from the set itself (second list). An exception that neither \<^verbatim>\<open>except\<close> clause
  catches leaves the function.
\<close>

fun delete_resources_loop ::
  "(string \<Rightarrow> exc_class option) \<Rightarrow> exc_class \<Rightarrow> string list \<Rightarrow> string list \<times> hw_event list
     \<Rightarrow> (string list \<times> hw_event list) \<times> exc_class option" where
  "delete_resources_loop deleter exception_type [] (resource_ids, log) = ((resource_ids, log), None)"
| "delete_resources_loop deleter exception_type (item_id # rest) (resource_ids, log) =
     (case deleter item_id of
        None \<Rightarrow> delete_resources_loop deleter exception_type rest
                  (removeAll item_id resource_ids, log @ [DeleterCall item_id])
      | Some e \<Rightarrow>
          if exc_isinstance e exception_type then
            delete_resources_loop deleter exception_type rest
              (removeAll item_id resource_ids, log @ [DeleterCall item_id])
          else if exc_isinstance e NeutronException then
            delete_resources_loop deleter exception_type rest
              (resource_ids, log @ [DeleterCall item_id, LogDeleteFailed item_id])
          else ((resource_ids, log @ [DeleterCall item_id]), Some e))"

definition delete_resources ::
  "(string \<Rightarrow> exc_class option) \<Rightarrow> exc_class \<Rightarrow> string list \<times> hw_event list
     \<Rightarrow> (string list \<times> hw_event list) \<times> exc_class option" where
  "delete_resources deleter exception_type st =
     delete_resources_loop deleter exception_type (fst st) st"

text \<open>
  \<^verbatim>\<open>delete_hosting_device_resources(context, tenant_id, mgmt_port, **kwargs)\<close>: the
  \<^verbatim>\<open>while mgmt_port is not None\<close> loop, with the counter \<open>attempts\<close>. The plugin's
  \<^verbatim>\<open>delete_port\<close> may answer differently at each attempt, so it takes the number of the
  attempt. The result is the log and the exception that left the function, if any; \<open>None\<close>
  of the outer option would be a loop that never ends.
\<close>

partial_function (option) delete_hosting_loop ::
  "(nat \<Rightarrow> string \<Rightarrow> exc_class option) \<Rightarrow> nat \<Rightarrow> port option \<Rightarrow> hw_event list
     \<Rightarrow> (hw_event list \<times> exc_class option) option" where
  "delete_hosting_loop delete_port attempts mgmt_port log =
     (case mgmt_port of
        None \<Rightarrow> Some (log @ [LogSucceeded], None)
      | Some mp \<Rightarrow>
          if attempts = DELETION_ATTEMPTS then
            Some (log @ [LogAbortWarning DELETION_ATTEMPTS], None)
          else
            (let log1 = log @ (if attempts > 1 then [Sleep SECONDS_BETWEEN_DELETION_ATTEMPTS] else [])
                            @ [LogAttemptStarting attempts]
             in case delete_resources (delete_port attempts) PortNotFound ([p_id mp], log1) of
                  ((ml, log2), Some e) \<Rightarrow> Some (log2, Some e)
                | ((ml, log2), None) \<Rightarrow>
                    delete_hosting_loop delete_port (attempts + 1)
                      (if ml = [] then None else Some mp) log2))"

definition delete_hosting_device_resources ::
  "(nat \<Rightarrow> string \<Rightarrow> exc_class option) \<Rightarrow> port option \<Rightarrow> (hw_event list \<times> exc_class option) option" where
  "delete_hosting_device_resources delete_port mgmt_port =
     delete_hosting_loop delete_port 1 mgmt_port []"

text \<open>The number of times the deleter was called, read off a log.\<close>

definition deleter_calls :: "hw_event list \<Rightarrow> nat" where
  "deleter_calls log = length (filter (\<lambda>ev. case ev of DeleterCall _ \<Rightarrow> True | _ \<Rightarrow> False) log)"

section \<open>phy\_routing\_svc\_helper: the port diff\<close>

text \<open>\<^verbatim>\<open>_get_port_set_diffs(existing_list, current_list)\<close>, returning \<open>(old_ports, new_ports)\<close>.\<close>

definition get_port_set_diffs :: "port list \<Rightarrow> port list \<Rightarrow> port list \<times> port list" where
  "get_port_set_diffs existing_list current_list =
     (let existing_port_ids = set (map p_id existing_list);
          current_port_ids = set (map p_id (filter p_admin_state_up current_list));
          new_ports = filter (\<lambda>p. p_id p \<in> current_port_ids - existing_port_ids) current_list;
          old_ports = filter (\<lambda>p. p_id p \<notin> current_port_ids) existing_list
      in (old_ports, new_ports))"

text \<open>The diff as the specification words it (section 4.1, step 9), for comparison.\<close>

definition spec_new_ports :: "port list \<Rightarrow> port list \<Rightarrow> port list" where
  "spec_new_ports old new =
     filter (\<lambda>p. p_id p \<notin> set (map p_id old) \<and> p_admin_state_up p) new"

definition spec_old_ports :: "port list \<Rightarrow> port list \<Rightarrow> port list" where
  "spec_old_ports old new = filter (\<lambda>p. p_id p \<notin> set (map p_id new)) old"

text \<open>\<open>has_admin_up_id ps i\<close>: \<open>i\<close> is in \<^verbatim>\<open>current_port_ids\<close>, the ids of the admin-up items of \<open>ps\<close>.\<close>

definition has_admin_up_id :: "port list \<Rightarrow> string \<Rightarrow> bool" where
  "has_admin_up_id ps i = (i \<in> set (map p_id (filter p_admin_state_up ps)))"

section \<open>phy\_routing\_svc\_helper: routers and RouterInfo\<close>

text \<open>
  The router dictionary received from the plugin, with the keys the code reads:
  \<^verbatim>\<open>r['id']\<close>, \<^verbatim>\<open>r['admin_state_up']\<close>, \<^verbatim>\<open>get('gw_port')\<close>,
  \<^verbatim>\<open>get(INTERFACE_KEY, [])\<close>, \<^verbatim>\<open>get(HA_GW_KEY, [])\<close>, \<^verbatim>\<open>get('ha_info')\<close> and
  \<^verbatim>\<open>get('enable_snat', True)\<close>. A key read with \<^verbatim>\<open>get\<close> and absent is \<open>None\<close> (or
  the empty list); the two subscripted keys are always present in this type.
\<close>

record router_dict =
  r_id :: string
  r_admin_state_up :: bool
  r_gw_port :: "port option"
  r_interfaces :: "port list"
  r_ha_gw_ports :: "port list"
  r_ha_info :: "string option"
  r_enable_snat :: "bool option"

text \<open>
  Class \<^verbatim>\<open>RouterInfo\<close>. The attributes \<^verbatim>\<open>floating_ips\<close>, \<^verbatim>\<open>routes\<close> and
  \<^verbatim>\<open>_snat_action\<close> are set once by the constructor and used by no code of the two
  files; they are left out.
\<close>

record RouterInfo =
  router_id :: string
  ex_gw_port :: "port option"
  snat_enabled :: "bool option"
  internal_ports :: "port list"
  router :: router_dict
  ha_info :: "string option"
  ha_gw_ports :: "port list"

text \<open>The setter of the property \<^verbatim>\<open>router\<close>.\<close>

definition set_router :: "router_dict \<Rightarrow> RouterInfo \<Rightarrow> RouterInfo" where
  "set_router v ri =
     ri\<lparr>router := v,
        snat_enabled := Some (case r_enable_snat v of None \<Rightarrow> True | Some b \<Rightarrow> b)\<rparr>"

definition RouterInfo_init :: "string \<Rightarrow> router_dict \<Rightarrow> RouterInfo" where
  "RouterInfo_init rid r =
     (set_router r \<lparr>router_id = rid, ex_gw_port = None, snat_enabled = None,
                    internal_ports = [], router = r, ha_info = None, ha_gw_ports = []\<rparr>)
       \<lparr>ha_info := r_ha_info r\<rparr>"

section \<open>phy\_routing\_svc\_helper: collaborators\<close>

text \<open>
  The calls that leave the two files: the device driver, the plugin RPC and the methods of
  the base class \<^verbatim>\<open>RoutingServiceHelper\<close>. Each is an event; the string is the id of
  the router the call is made for.
\<close>

datatype event =
    SendEmptyCfg
  | FetchAllRouters
  | FetchRouters "string list"
  | DeleteInvalidCfg
  | PrepareFullsync
  | ClearFullsync
  | RouterAdded string
  | RouterRemoved string
  | SetSubnetInfo port
  | InternalNetworkAdded string port
  | InternalNetworkRemoved string port
  | ExternalGatewayAdded string port
  | ExternalGatewayRemoved string port
  | ProcessRouterFloatingIps string
  | RoutesUpdated string

type_synonym trace = "(event \<times> exc_class option) list"

text \<open>
  The behaviour of the collaborators: whether a call returns (\<open>None\<close>) or raises, and what
  a fetch returns, both as functions of everything that happened before.
\<close>

record world =
  w_call :: "trace \<Rightarrow> event \<Rightarrow> exc_class option"
  w_fetch :: "trace \<Rightarrow> event \<Rightarrow> router_dict list"

text \<open>
  Class \<^verbatim>\<open>PhyRouterContext\<close>. The dictionary \<^verbatim>\<open>router_info\<close> is an association
  list, the sets are lists without duplicates (their order is the iteration order, which
  Python leaves unspecified). \<open>trace\<close> is not an attribute of the class: it records the
  calls made to the collaborators with their outcome.
\<close>

record PhyRouterContext =
  router_info :: "(string \<times> RouterInfo) list"
  updated_routers :: "string list"
  removed_routers :: "string list"
  sync_devices :: "nat list"
  fullsync :: bool
  trace :: trace

definition PhyRouterContext_init :: PhyRouterContext where
  "PhyRouterContext_init =
     \<lparr>router_info = [], updated_routers = [], removed_routers = [], sync_devices = [],
      fullsync = True, trace = []\<rparr>"

definition call :: "world \<Rightarrow> event \<Rightarrow> PhyRouterContext \<Rightarrow> PhyRouterContext \<times> exc_class option" where
  "call w ev s = (s\<lparr>trace := trace s @ [(ev, w_call w (trace s) ev)]\<rparr>, w_call w (trace s) ev)"

text \<open>Sequencing: the second step runs only if the first raised nothing.\<close>

definition seq :: "'s \<times> exc_class option \<Rightarrow> ('s \<Rightarrow> 's \<times> exc_class option) \<Rightarrow> 's \<times> exc_class option" where
  "seq r f = (case r of (s, None) \<Rightarrow> f s | (s, Some e) \<Rightarrow> (s, Some e))"

section \<open>phy\_routing\_svc\_helper: processing one router\<close>

text \<open>
  The two \<^verbatim>\<open>for p in new_ports\<close> loops of \<^verbatim>\<open>_process_router\<close> have one shape:
  \<^verbatim>\<open>_set_subnet_info(p)\<close>, the driver call \<open>mk p\<close>, then the append \<open>upd p\<close> to the
  applied list. The state is the RouterInfo object with the context. A call that raises
  ends the loop with that exception.
\<close>

fun add_ports_loop ::
  "world \<Rightarrow> (port \<Rightarrow> event) \<Rightarrow> (port \<Rightarrow> RouterInfo \<Rightarrow> RouterInfo) \<Rightarrow> port list
     \<Rightarrow> RouterInfo \<times> PhyRouterContext \<Rightarrow> (RouterInfo \<times> PhyRouterContext) \<times> exc_class option" where
  "add_ports_loop w mk upd [] st = (st, None)"
| "add_ports_loop w mk upd (p # ps) st =
     (case call w (SetSubnetInfo p) (snd st) of
        (s1, Some e) \<Rightarrow> ((fst st, s1), Some e)
      | (s1, None) \<Rightarrow>
          (case call w (mk p) s1 of
             (s2, Some e) \<Rightarrow> ((fst st, s2), Some e)
           | (s2, None) \<Rightarrow> add_ports_loop w mk upd ps (upd p (fst st), s2)))"

text \<open>
  The two \<^verbatim>\<open>for p in old_ports\<close> loops: the driver call \<open>mk p\<close>, then
  \<^verbatim>\<open>list.remove(p)\<close> on the applied list (\<open>upd p\<close>).
\<close>

fun remove_ports_loop ::
  "world \<Rightarrow> (port \<Rightarrow> event) \<Rightarrow> (port \<Rightarrow> RouterInfo \<Rightarrow> RouterInfo) \<Rightarrow> port list
     \<Rightarrow> RouterInfo \<times> PhyRouterContext \<Rightarrow> (RouterInfo \<times> PhyRouterContext) \<times> exc_class option" where
  "remove_ports_loop w mk upd [] st = (st, None)"
| "remove_ports_loop w mk upd (p # ps) st =
     (case call w (mk p) (snd st) of
        (s1, Some e) \<Rightarrow> ((fst st, s1), Some e)
      | (s1, None) \<Rightarrow> remove_ports_loop w mk upd ps (upd p (fst st), s1))"

definition append_internal_port :: "port \<Rightarrow> RouterInfo \<Rightarrow> RouterInfo" where
  "append_internal_port p ri = ri\<lparr>internal_ports := internal_ports ri @ [p]\<rparr>"

definition remove_internal_port :: "port \<Rightarrow> RouterInfo \<Rightarrow> RouterInfo" where
  "remove_internal_port p ri = ri\<lparr>internal_ports := remove1 p (internal_ports ri)\<rparr>"

definition append_ha_gw_port :: "port \<Rightarrow> RouterInfo \<Rightarrow> RouterInfo" where
  "append_ha_gw_port p ri = ri\<lparr>ha_gw_ports := ha_gw_ports ri @ [p]\<rparr>"

definition remove_ha_gw_port :: "port \<Rightarrow> RouterInfo \<Rightarrow> RouterInfo" where
  "remove_ha_gw_port p ri = ri\<lparr>ha_gw_ports := remove1 p (ha_gw_ports ri)\<rparr>"

text \<open>A collaborator call made while a RouterInfo object is in hand.\<close>

definition call_ri ::
  "world \<Rightarrow> event \<Rightarrow> RouterInfo \<times> PhyRouterContext \<Rightarrow> (RouterInfo \<times> PhyRouterContext) \<times> exc_class option" where
  "call_ri w ev st = (case call w ev (snd st) of (s1, ex) \<Rightarrow> ((fst st, s1), ex))"

text \<open>
  The body of the \<^verbatim>\<open>try\<close> of \<^verbatim>\<open>_process_router(ri)\<close>. The gateway port passed to
  \<^verbatim>\<open>_internal_network_added\<close> and \<^verbatim>\<open>_internal_network_removed\<close> is not part of the
  event. \<^verbatim>\<open>if ex_gw_port\<close> is the test for a gateway port being present.
\<close>

definition process_router_try ::
  "world \<Rightarrow> RouterInfo \<times> PhyRouterContext \<Rightarrow> (RouterInfo \<times> PhyRouterContext) \<times> exc_class option" where
  "process_router_try w st0 =
     (let gw_port = r_gw_port (router (fst st0));
          ri = (fst st0)\<lparr>ha_info := r_ha_info (router (fst st0))\<rparr>;
          rid = router_id ri;
          interfaces = r_interfaces (router ri);
          gw_ports = r_ha_gw_ports (router ri);
          old_ports = fst (get_port_set_diffs (internal_ports ri) interfaces);
          new_ports = snd (get_port_set_diffs (internal_ports ri) interfaces);
          old_gw_ports = fst (get_port_set_diffs (ha_gw_ports ri) gw_ports);
          new_gw_ports = snd (get_port_set_diffs (ha_gw_ports ri) gw_ports)
      in
        seq (add_ports_loop w (InternalNetworkAdded rid) append_internal_port new_ports (ri, snd st0))
       (\<lambda>st1. seq (remove_ports_loop w (InternalNetworkRemoved rid) remove_internal_port old_ports st1)
       (\<lambda>st2. seq (add_ports_loop w (ExternalGatewayAdded rid) append_ha_gw_port new_gw_ports st2)
       (\<lambda>st3. seq (remove_ports_loop w (ExternalGatewayRemoved rid) remove_ha_gw_port old_gw_ports st3)
       (\<lambda>st4. seq (case gw_port of
                      None \<Rightarrow> (st4, None)
                    | Some gw \<Rightarrow> call_ri w (ProcessRouterFloatingIps rid) st4)
       (\<lambda>st5. call_ri w (RoutesUpdated rid) ((fst st5)\<lparr>ex_gw_port := gw_port\<rparr>, snd st5)))))))"

text \<open>
  \<^verbatim>\<open>_process_router(ri)\<close>: a DriverException puts the router id into
  \<^verbatim>\<open>updated_routers\<close> and is raised again; any other exception passes through.
\<close>

definition process_router ::
  "world \<Rightarrow> RouterInfo \<times> PhyRouterContext \<Rightarrow> (RouterInfo \<times> PhyRouterContext) \<times> exc_class option" where
  "process_router w st0 =
     (case process_router_try w st0 of
        (st, None) \<Rightarrow> (st, None)
      | (st, Some e) \<Rightarrow>
          if exc_isinstance e DriverException then
            ((fst st, (snd st)\<lparr>updated_routers :=
                 List.insert (router_id (fst st)) (updated_routers (snd st))\<rparr>), Some e)
          else (st, Some e))"

section \<open>phy\_routing\_svc\_helper: methods of the base class\<close>

text \<open>
  Modelled from the spec: \<^verbatim>\<open>_router_added(router_id, router)\<close> is a method of the base
  class \<^verbatim>\<open>routing_svc_helper.RoutingServiceHelper\<close>, which is not among the sources.
  Section 4.1, step 8: for a new router id, create a RouterRecord. The driver is told of
  the router (a call that may raise); the record is stored when that call returns.
\<close>

definition router_added ::
  "world \<Rightarrow> string \<Rightarrow> router_dict \<Rightarrow> PhyRouterContext \<Rightarrow> PhyRouterContext \<times> exc_class option" where
  "router_added w rid r s =
     (case call w (RouterAdded rid) s of
        (s1, Some e) \<Rightarrow> (s1, Some e)
      | (s1, None) \<Rightarrow>
          (s1\<lparr>router_info := AList.update rid (RouterInfo_init rid r) (router_info s1)\<rparr>, None))"

text \<open>
  Modelled from the spec: \<^verbatim>\<open>_router_removed(router_id)\<close> is a method of the same
  base class. Section 4.1, step 6: invoke router-removal teardown and discard its
  RouterRecord; an id that fails to delete does not abort the rest. The teardown is one
  call \<open>RouterRemoved\<close>; when it returns, the record is discarded; when it fails with an
  operation error (a DriverException), the record stays and nothing is raised; any other
  exception is raised. An id without a record has nothing to tear down.
\<close>

definition router_removed ::
  "world \<Rightarrow> string \<Rightarrow> PhyRouterContext \<Rightarrow> PhyRouterContext \<times> exc_class option" where
  "router_removed w rid s =
     (case map_of (router_info s) rid of
        None \<Rightarrow> (s, None)
      | Some ri \<Rightarrow>
          (case call w (RouterRemoved rid) s of
             (s1, None) \<Rightarrow> (s1\<lparr>router_info := AList.delete rid (router_info s1)\<rparr>, None)
           | (s1, Some e) \<Rightarrow>
               if exc_isinstance e DriverException then (s1, None) else (s1, Some e)))"

text \<open>
  Modelled from the spec: \<^verbatim>\<open>_fetch_router_info\<close> is a method of the same base class.
  Section 6: \<open>fetchDesiredState\<close> returns the full or partial list of router definitions.
  It is a call that may raise; when it returns, the world gives the list.
\<close>

definition fetch_router_info ::
  "world \<Rightarrow> event \<Rightarrow> PhyRouterContext \<Rightarrow> (PhyRouterContext \<times> router_dict list) \<times> exc_class option" where
  "fetch_router_info w ev s =
     (case call w ev s of
        (s1, Some e) \<Rightarrow> ((s1, []), Some e)
      | (s1, None) \<Rightarrow> ((s1, w_fetch w (trace s) ev), None))"

section \<open>phy\_routing\_svc\_helper: processing the routers of a device\<close>

text \<open>
  \<^verbatim>\<open>_adjust_router_list(routers)\<close>: the first router whose id is the global sentinel is
  moved to the end of the list.
\<close>

fun adjust_router_list :: "router_dict list \<Rightarrow> router_dict list" where
  "adjust_router_list [] = []"
| "adjust_router_list (r # rs) =
     (if r_id r = ''PHYSICAL_GLOBAL_ROUTER_ID'' then rs @ [r] else r # adjust_router_list rs)"

text \<open>
  The two removal loops of \<^verbatim>\<open>_process_routers\<close>: \<^verbatim>\<open>_router_removed\<close> for each id, which
  is then appended to \<^verbatim>\<open>deleted_id_list\<close>.
\<close>

fun removed_loop ::
  "world \<Rightarrow> string list \<Rightarrow> PhyRouterContext \<times> string list
     \<Rightarrow> (PhyRouterContext \<times> string list) \<times> exc_class option" where
  "removed_loop w [] st = (st, None)"
| "removed_loop w (rid # rest) st =
     (case router_removed w rid (fst st) of
        (s1, Some e) \<Rightarrow> ((s1, snd st), Some e)
      | (s1, None) \<Rightarrow> removed_loop w rest (s1, snd st @ [rid]))"

text \<open>
  The body of the inner \<^verbatim>\<open>try\<close> of the main loop, for one router \<open>r\<close> that is not in
  \<^verbatim>\<open>deleted_id_list\<close>. \<^verbatim>\<open>ri\<close> is the object stored in \<^verbatim>\<open>router_info\<close>, so what
  \<^verbatim>\<open>_process_router\<close> does to it is written back under the same key, also when an
  exception is raised.
\<close>

definition router_try ::
  "world \<Rightarrow> router_dict \<Rightarrow> PhyRouterContext \<Rightarrow> PhyRouterContext \<times> exc_class option" where
  "router_try w r s =
     (if \<not> r_admin_state_up r then (s, None)
      else
        seq (if map_of (router_info s) (r_id r) = None then router_added w (r_id r) r s
             else (s, None))
       (\<lambda>s1. case map_of (router_info s1) (r_id r) of
                None \<Rightarrow> (s1, Some KeyError)
              | Some ri \<Rightarrow>
                  (case process_router w (set_router r ri, s1) of
                     (st, ex) \<Rightarrow>
                       ((snd st)\<lparr>router_info :=
                            AList.update (r_id r) (fst st) (router_info (snd st))\<rparr>, ex))))"

text \<open>
  The main loop \<^verbatim>\<open>for r in routers\<close> with its two handlers: a KeyError or a
  DriverException puts the id into \<^verbatim>\<open>updated_routers\<close>, sets \<^verbatim>\<open>fullsync\<close> and goes
  on with the next router; any other exception leaves the loop.
\<close>

fun routers_loop ::
  "world \<Rightarrow> string list \<Rightarrow> router_dict list \<Rightarrow> PhyRouterContext \<Rightarrow> PhyRouterContext \<times> exc_class option" where
  "routers_loop w deleted_id_list [] s = (s, None)"
| "routers_loop w deleted_id_list (r # rs) s =
     (if r_id r \<in> set deleted_id_list then routers_loop w deleted_id_list rs s
      else
        (case router_try w r s of
           (s1, None) \<Rightarrow> routers_loop w deleted_id_list rs s1
         | (s1, Some e) \<Rightarrow>
             if exc_isinstance e KeyError then
               routers_loop w deleted_id_list rs
                 (s1\<lparr>updated_routers := List.insert (r_id r) (updated_routers s1), fullsync := True\<rparr>)
             else if exc_isinstance e DriverException then
               routers_loop w deleted_id_list rs
                 (s1\<lparr>updated_routers := List.insert (r_id r) (updated_routers s1), fullsync := True\<rparr>)
             else (s1, Some e)))"

text \<open>The body of the outer \<^verbatim>\<open>try\<close> of \<^verbatim>\<open>_process_routers\<close>.\<close>

definition process_routers_try ::
  "world \<Rightarrow> router_dict list \<Rightarrow> router_dict list \<Rightarrow> bool \<Rightarrow> PhyRouterContext
     \<Rightarrow> PhyRouterContext \<times> exc_class option" where
  "process_routers_try w routers removed all_routers s =
     (let prev_router_ids =
            (if all_routers then remdups (map fst (router_info s))
             else filter (\<lambda>k. k \<in> set (map r_id routers)) (remdups (map fst (router_info s))));
          cur_router_ids = map r_id (filter r_admin_state_up routers)
      in
        case seq (removed_loop w (filter (\<lambda>k. k \<notin> set cur_router_ids) prev_router_ids) (s, []))
                 (removed_loop w (map r_id removed)) of
          (st, Some e) \<Rightarrow> (fst st, Some e)
        | (st, None) \<Rightarrow> routers_loop w (snd st) (adjust_router_list routers) (fst st))"

text \<open>\<^verbatim>\<open>_process_routers(routers, removed_routers, device_id, all_routers)\<close>.\<close>

definition process_routers ::
  "world \<Rightarrow> router_dict list \<Rightarrow> router_dict list \<Rightarrow> nat \<Rightarrow> bool \<Rightarrow> PhyRouterContext
     \<Rightarrow> PhyRouterContext" where
  "process_routers w routers removed device_id all_routers s =
     (case process_routers_try w routers removed all_routers s of
        (s1, None) \<Rightarrow> s1
      | (s1, Some e) \<Rightarrow> s1\<lparr>sync_devices := List.insert device_id (sync_devices s1)\<rparr>)"

section \<open>phy\_routing\_svc\_helper: the pass of one device\<close>

text \<open>
  The body of the \<^verbatim>\<open>try\<close> of \<^verbatim>\<open>PhyRouterContext.process_service\<close>. The configuration
  returned by \<^verbatim>\<open>delete_invalid_cfg\<close> is only handed to \<^verbatim>\<open>prepare_fullsync\<close>.
\<close>

definition process_service_try :: "world \<Rightarrow> PhyRouterContext \<Rightarrow> PhyRouterContext \<times> exc_class option" where
  "process_service_try w s0 =
     seq (call w SendEmptyCfg s0)
    (\<lambda>s. if fullsync s then
            (case fetch_router_info w FetchAllRouters
                    (s\<lparr>fullsync := False, updated_routers := [], removed_routers := [],
                       sync_devices := []\<rparr>) of
               (st, Some e) \<Rightarrow> (fst st, Some e)
             | (st, None) \<Rightarrow>
                 seq (call w DeleteInvalidCfg (fst st))
                (\<lambda>s2. seq (call w PrepareFullsync s2)
                (\<lambda>s3. call w ClearFullsync
                         (process_routers w (snd st) [] 0 True (s3\<lparr>router_info := []\<rparr>)))))
          else
            (case (if updated_routers s \<noteq> [] then
                     fetch_router_info w (FetchRouters (updated_routers s)) (s\<lparr>updated_routers := []\<rparr>)
                   else ((s, []), None)) of
               (st, Some e) \<Rightarrow> (fst st, Some e)
             | (st, None) \<Rightarrow>
                 (let removed = map router (List.map_filter (map_of (router_info (fst st)))
                                              (removed_routers (fst st)))
                  in call w ClearFullsync (process_routers w (snd st) removed 0 False (fst st)))))"

text \<open>\<^verbatim>\<open>PhyRouterContext.process_service\<close>: any exception sets \<^verbatim>\<open>fullsync\<close>.\<close>

definition process_service :: "world \<Rightarrow> PhyRouterContext \<Rightarrow> PhyRouterContext" where
  "process_service w s =
     (case process_service_try w s of
        (s1, None) \<Rightarrow> s1
      | (s1, Some e) \<Rightarrow> s1\<lparr>fullsync := True\<rparr>)"

section \<open>phy\_routing\_svc\_helper: the fleet\<close>

text \<open>
  Class \<^verbatim>\<open>RoutingServiceHelperWithPhyContext\<close>: the dictionary \<^verbatim>\<open>_asr_contexts\<close> from
  device name to context.
\<close>

type_synonym asr_contexts = "(string \<times> PhyRouterContext) list"

definition resync_asrs :: "asr_contexts \<Rightarrow> asr_contexts" where
  "resync_asrs ctxs = map (\<lambda>(asr_name, asr_ctx). (asr_name, asr_ctx\<lparr>fullsync := True\<rparr>)) ctxs"

text \<open>
  \<^verbatim>\<open>RoutingServiceHelperWithPhyContext.process_service\<close>. \<open>heartbeat\<close> is the outcome of
  \<^verbatim>\<open>plugin_rpc.agent_heartbeat\<close>; each device has its own driver, hence its own world.
  The green threads of the pool each run the pass of one context, which touches that
  context only; the model runs them one after the other. An exception of the heartbeat
  other than a timeout leaves the function.
\<close>

definition fleet_process_service ::
  "exc_class option \<Rightarrow> (string \<Rightarrow> world) \<Rightarrow> asr_contexts \<Rightarrow> asr_contexts \<times> exc_class option" where
  "fleet_process_service heartbeat worlds ctxs =
     (case heartbeat of
        Some e \<Rightarrow>
          if exc_isinstance e MessagingTimeout then (resync_asrs ctxs, None)
          else (ctxs, Some e)
      | None \<Rightarrow>
          (map (\<lambda>(asr_name, asr_ctx). (asr_name, process_service (worlds asr_name) asr_ctx)) ctxs,
           None))"

section \<open>phy\_routing\_svc\_helper: construction\<close>

text \<open>
  The classes of the RPC proxies, with their linearisation as the \<^verbatim>\<open>class\<close> statements
  give it: both \<^verbatim>\<open>CiscoRoutingPluginApi\<close> and \<^verbatim>\<open>PhyCiscoRoutingPluginApi\<close> derive from
  \<^verbatim>\<open>n_rpc.RpcProxy\<close> only.
\<close>

datatype py_class = PyObject | RpcProxy | CiscoRoutingPluginApi | PhyCiscoRoutingPluginApi

fun class_mro :: "py_class \<Rightarrow> py_class list" where
  "class_mro PyObject = [PyObject]"
| "class_mro RpcProxy = [RpcProxy, PyObject]"
| "class_mro CiscoRoutingPluginApi = [CiscoRoutingPluginApi, RpcProxy, PyObject]"
| "class_mro PhyCiscoRoutingPluginApi = [PhyCiscoRoutingPluginApi, RpcProxy, PyObject]"

text \<open>
  \<^verbatim>\<open>super(t, obj)\<close> for an object of class \<open>obj_class\<close>: Python raises TypeError unless
  the object is an instance of \<open>t\<close>; otherwise attribute lookup goes on in the classes that
  follow \<open>t\<close> in the linearisation of the object's class.
\<close>

definition py_super :: "py_class \<Rightarrow> py_class \<Rightarrow> exc_class + py_class list" where
  "py_super t obj_class =
     (if t \<in> set (class_mro obj_class)
      then Inr (tl (dropWhile (\<lambda>c. c \<noteq> t) (class_mro obj_class)))
      else Inl TypeError)"

record plugin_api =
  api_topic :: string
  api_default_version :: string
  api_host :: string

definition BASE_RPC_API_VERSION :: string where
  "BASE_RPC_API_VERSION = ''1.1''"

text \<open>
  The two constructors. \<open>rpc_proxy_init\<close> is the outcome of \<^verbatim>\<open>RpcProxy.__init__\<close>, which
  is not among the sources.
\<close>

definition CiscoRoutingPluginApi_init :: "exc_class option \<Rightarrow> string \<Rightarrow> string \<Rightarrow> exc_class + plugin_api" where
  "CiscoRoutingPluginApi_init rpc_proxy_init topic host =
     (case py_super CiscoRoutingPluginApi CiscoRoutingPluginApi of
        Inl e \<Rightarrow> Inl e
      | Inr following \<Rightarrow>
          (case rpc_proxy_init of
             Some e \<Rightarrow> Inl e
           | None \<Rightarrow> Inr \<lparr>api_topic = topic, api_default_version = BASE_RPC_API_VERSION,
                          api_host = host\<rparr>))"

definition PhyCiscoRoutingPluginApi_init :: "exc_class option \<Rightarrow> string \<Rightarrow> string \<Rightarrow> exc_class + plugin_api" where
  "PhyCiscoRoutingPluginApi_init rpc_proxy_init topic host =
     (case py_super CiscoRoutingPluginApi PhyCiscoRoutingPluginApi of
        Inl e \<Rightarrow> Inl e
      | Inr following \<Rightarrow>
          (case rpc_proxy_init of
             Some e \<Rightarrow> Inl e
           | None \<Rightarrow> Inr \<lparr>api_topic = topic, api_default_version = BASE_RPC_API_VERSION,
                          api_host = host\<rparr>))"

text \<open>
  What \<^verbatim>\<open>RoutingServiceHelperWithPhyContext.__init__\<close> meets outside the two files: the
  admin context, the topic constant \<^verbatim>\<open>topics.L3PLUGIN\<close>, the constructor of the RPC
  proxy base class, and everything after the proxy is built (device status, RPC setup,
  the device configuration with its list of device names, the driver managers).
\<close>

record init_world =
  iw_admin_context :: "exc_class option"
  iw_L3PLUGIN :: string
  iw_rpc_proxy_init :: "exc_class option"
  iw_setup :: "exc_class option"
  iw_asr_names :: "string list"

definition RoutingServiceHelperWithPhyContext_init ::
  "init_world \<Rightarrow> string \<Rightarrow> exc_class + (plugin_api \<times> asr_contexts)" where
  "RoutingServiceHelperWithPhyContext_init iw host =
     (case iw_admin_context iw of
        Some e \<Rightarrow> Inl e
      | None \<Rightarrow>
          (case PhyCiscoRoutingPluginApi_init (iw_rpc_proxy_init iw) (iw_L3PLUGIN iw) host of
             Inl e \<Rightarrow> Inl e
           | Inr plugin_rpc \<Rightarrow>
               (case iw_setup iw of
                  Some e \<Rightarrow> Inl e
                | None \<Rightarrow>
                    Inr (plugin_rpc,
                         foldl (\<lambda>ctxs name. AList.update name PhyRouterContext_init ctxs) []
                           (iw_asr_names iw)))))"

section \<open>Auxiliary notions for the proofs\<close>

text \<open>An id is gone from the set after \<^verbatim>\<open>_delete_resources\<close>: deleted, or not found.\<close>

definition gone :: "(string \<Rightarrow> exc_class option) \<Rightarrow> exc_class \<Rightarrow> string \<Rightarrow> bool" where
  "gone deleter exception_type i =
     (case deleter i of None \<Rightarrow> True | Some e \<Rightarrow> exc_isinstance e exception_type)"

text \<open>
  The deletion of an id failed with a NeutronException other than the expected one: the
  error that \<^verbatim>\<open>_delete_resources\<close> logs and after which the id stays in the set.
\<close>

definition retained :: "(string \<Rightarrow> exc_class option) \<Rightarrow> exc_class \<Rightarrow> string \<Rightarrow> bool" where
  "retained deleter exception_type i =
     (case deleter i of None \<Rightarrow> False
      | Some e \<Rightarrow> \<not> exc_isinstance e exception_type \<and> exc_isinstance e NeutronException)"

text \<open>A device context with a pending update and the full-resync flag off, for examples.\<close>

definition ctx_pending :: PhyRouterContext where
  "ctx_pending = \<lparr>router_info = [], updated_routers = [''r1''], removed_routers = [],
                  sync_devices = [], fullsync = False, trace = []\<rparr>"

text \<open>The calls made between two states of a context: what the later trace has beyond the earlier.\<close>

definition new_events :: "PhyRouterContext \<Rightarrow> PhyRouterContext \<Rightarrow> trace" where
  "new_events s s' = drop (length (trace s)) (trace s')"

text \<open>\<open>appended s new s'\<close>: the state \<open>s'\<close> is \<open>s\<close> with the calls \<open>new\<close> added to its trace, and nothing else changed.\<close>

definition appended :: "PhyRouterContext \<Rightarrow> trace \<Rightarrow> PhyRouterContext \<Rightarrow> bool" where
  "appended s new s' = (s' = s\<lparr>trace := trace s @ new\<rparr>)"

text \<open>What the loop over the new ports has done when it ends.\<close>

definition add_spec ::
  "(port \<Rightarrow> event) \<Rightarrow> (port \<Rightarrow> RouterInfo \<Rightarrow> RouterInfo) \<Rightarrow> port list
     \<Rightarrow> RouterInfo \<times> PhyRouterContext \<Rightarrow> RouterInfo \<times> PhyRouterContext \<Rightarrow> exc_class option
     \<Rightarrow> port list \<Rightarrow> port list \<Rightarrow> trace \<Rightarrow> bool" where
  "add_spec mk upd ps st st' ex dn rest new =
     (ps = dn @ rest \<and> fst st' = foldl (\<lambda>ri p. upd p ri) (fst st) dn
      \<and> appended (snd st) new (snd st')
      \<and> (\<forall>p \<in> set dn. (mk p, None) \<in> set new)
      \<and> (\<forall>x \<in> set new. \<exists>p \<in> set ps. fst x = SetSubnetInfo p \<or> fst x = mk p)
      \<and> (ex = None \<longrightarrow> rest = []))"

text \<open>What the loop over the old ports has done when it ends.\<close>

definition remove_spec ::
  "(port \<Rightarrow> event) \<Rightarrow> (port \<Rightarrow> RouterInfo \<Rightarrow> RouterInfo) \<Rightarrow> port list
     \<Rightarrow> RouterInfo \<times> PhyRouterContext \<Rightarrow> RouterInfo \<times> PhyRouterContext \<Rightarrow> exc_class option
     \<Rightarrow> port list \<Rightarrow> port list \<Rightarrow> trace \<Rightarrow> bool" where
  "remove_spec mk upd ps st st' ex dn rest new =
     (ps = dn @ rest \<and> fst st' = foldl (\<lambda>ri p. upd p ri) (fst st) dn
      \<and> appended (snd st) new (snd st')
      \<and> new = map (\<lambda>p. (mk p, None)) dn
                @ (case ex of None \<Rightarrow> [] | Some e \<Rightarrow> [(mk (hd rest), Some e)])
      \<and> (ex = None \<longrightarrow> rest = []) \<and> (ex \<noteq> None \<longrightarrow> rest \<noteq> []))"

text \<open>A triple for a step that may raise: from a state satisfying \<open>P\<close>, the step ends in a state satisfying \<open>Q\<close> when it returns and \<open>J\<close> when it raises.\<close>

definition hoareE ::
  "('st \<Rightarrow> bool) \<Rightarrow> ('st \<Rightarrow> bool) \<Rightarrow> ('st \<Rightarrow> bool) \<Rightarrow> ('st \<Rightarrow> 'st \<times> exc_class option) \<Rightarrow> bool" where
  "hoareE P Q J f = (\<forall>st st' ex. f st = (st', ex) \<longrightarrow> P st \<longrightarrow> (case ex of None \<Rightarrow> Q st' | Some e \<Rightarrow> J st'))"

text \<open>An invariant on a RouterInfo object and the calls made since the state \<open>s0\<close>.\<close>

definition since ::
  "PhyRouterContext \<Rightarrow> (RouterInfo \<Rightarrow> trace \<Rightarrow> bool) \<Rightarrow> RouterInfo \<times> PhyRouterContext \<Rightarrow> bool" where
  "since s0 I st = (\<exists>new. appended s0 new (snd st) \<and> I (fst st) new)"

text \<open>The call of \<^verbatim>\<open>_process_router_floating_ips\<close>.\<close>

fun is_floating_ips_event :: "event \<Rightarrow> bool" where
  "is_floating_ips_event (ProcessRouterFloatingIps rid) = True"
| "is_floating_ips_event ev = False"

text \<open>The router a call is made for, when the call names one.\<close>

fun event_router :: "event \<Rightarrow> string option" where
  "event_router (RouterAdded rid) = Some rid"
| "event_router (RouterRemoved rid) = Some rid"
| "event_router (InternalNetworkAdded rid p) = Some rid"
| "event_router (InternalNetworkRemoved rid p) = Some rid"
| "event_router (ExternalGatewayAdded rid p) = Some rid"
| "event_router (ExternalGatewayRemoved rid p) = Some rid"
| "event_router (ProcessRouterFloatingIps rid) = Some rid"
| "event_router (RoutesUpdated rid) = Some rid"
| "event_router ev = None"

text \<open>The teardown call of \<^verbatim>\<open>_router_removed\<close>.\<close>

fun is_router_removed :: "event \<Rightarrow> bool" where
  "is_router_removed (RouterRemoved rid) = True"
| "is_router_removed ev = False"

text \<open>The calls of the add and diff work for router \<open>rid\<close>: any call but a teardown that names no other router.\<close>

definition work_for :: "string \<Rightarrow> event \<Rightarrow> bool" where
  "work_for rid ev = ((event_router ev = None \<or> event_router ev = Some rid) \<and> \<not> is_router_removed ev)"

text \<open>Every RouterInfo object is stored under its own router id.\<close>

definition keys_match :: "PhyRouterContext \<Rightarrow> bool" where
  "keys_match s = list_all (\<lambda>kv. router_id (snd kv) = fst kv) (router_info s)"

text \<open>The outcome is a raised DriverException.\<close>

definition raised_driver :: "exc_class option \<Rightarrow> bool" where
  "raised_driver ex = (case ex of None \<Rightarrow> False | Some e \<Rightarrow> exc_isinstance e DriverException)"

text \<open>The part of the inner \<^verbatim>\<open>try\<close> that follows \<^verbatim>\<open>_router_added\<close>.\<close>

definition router_try_tail ::
  "world \<Rightarrow> router_dict \<Rightarrow> PhyRouterContext \<Rightarrow> PhyRouterContext \<times> exc_class option" where
  "router_try_tail w r s1 =
     (case map_of (router_info s1) (r_id r) of
        None \<Rightarrow> (s1, Some KeyError)
      | Some ri \<Rightarrow>
          (case process_router w (set_router r ri, s1) of
             (st, ex) \<Rightarrow>
               ((snd st)\<lparr>router_info :=
                    AList.update (r_id r) (fst st) (router_info (snd st))\<rparr>, ex)))"

text \<open>What one step of the main loop for router \<open>rid\<close> may change.\<close>

definition step_ok :: "string \<Rightarrow> PhyRouterContext \<Rightarrow> PhyRouterContext \<Rightarrow> trace \<Rightarrow> bool" where
  "step_ok rid s s' new =
     (trace s' = trace s @ new \<and> (\<forall>x\<in>set new. work_for rid (fst x))
      \<and> keys_match s'
      \<and> (\<forall>k. k \<noteq> rid \<longrightarrow> map_of (router_info s') k = map_of (router_info s) k)
      \<and> fullsync s' = fullsync s \<and> removed_routers s' = removed_routers s
      \<and> sync_devices s' = sync_devices s
      \<and> set (updated_routers s) \<subseteq> set (updated_routers s')
      \<and> set (updated_routers s') \<subseteq> insert rid (set (updated_routers s)))"

text \<open>Between two states, \<^verbatim>\<open>updated_routers\<close> only gains ids and a set \<^verbatim>\<open>fullsync\<close> stays set.\<close>

definition grows :: "PhyRouterContext \<Rightarrow> PhyRouterContext \<Rightarrow> bool" where
  "grows s s' = (set (updated_routers s) \<subseteq> set (updated_routers s') \<and> (fullsync s \<longrightarrow> fullsync s'))"

text \<open>Examples: a port, two routers without a gateway port, and three worlds.\<close>

definition port1 :: port where
  "port1 = \<lparr>p_id = ''p1'', p_admin_state_up = True\<rparr>"

definition router1 :: router_dict where
  "router1 = \<lparr>r_id = ''r1'', r_admin_state_up = True, r_gw_port = None, r_interfaces = [port1],
              r_ha_gw_ports = [], r_ha_info = None, r_enable_snat = None\<rparr>"

definition router2 :: router_dict where
  "router2 = \<lparr>r_id = ''r2'', r_admin_state_up = True, r_gw_port = None, r_interfaces = [],
              r_ha_gw_ports = [], r_ha_info = None, r_enable_snat = None\<rparr>"

text \<open>A device context in the steady state: nothing known, nothing pending, flag off.\<close>

definition ctx_steady :: PhyRouterContext where
  "ctx_steady = \<lparr>router_info = [], updated_routers = [], removed_routers = [],
                 sync_devices = [], fullsync = False, trace = []\<rparr>"

text \<open>Every call returns; nothing is fetched.\<close>

definition world_ok :: world where
  "world_ok = \<lparr>w_call = (\<lambda>tr ev. None), w_fetch = (\<lambda>tr ev. [])\<rparr>"

text \<open>
  The plugin knows \<open>router1\<close>; adding its port fails on the device with an exception that
  is neither a DriverException nor a KeyError.
\<close>

definition world_add_fails :: world where
  "world_add_fails =
     \<lparr>w_call = (\<lambda>tr ev. if ev = InternalNetworkAdded ''r1'' port1 then Some PyException else None),
      w_fetch = (\<lambda>tr ev. [router1])\<rparr>"

text \<open>Adding the port of \<open>router1\<close> fails with a DriverException.\<close>

definition world_driver_fails :: world where
  "world_driver_fails =
     \<lparr>w_call = (\<lambda>tr ev. if ev = InternalNetworkAdded ''r1'' port1 then Some DriverException else None),
      w_fetch = (\<lambda>tr ev. [router1, router2])\<rparr>"








section \<open>Deletion of hosting device resources: properties\<close>

lemma delete_resources_loop_filter:
  "delete_resources_loop d et its (ids, log) = ((ids', log'), None)
     \<Longrightarrow> ids' = filter (\<lambda>i. \<not> (i \<in> set its \<and> gone d et i)) ids"
proof (induction its arbitrary: ids log)
  case Nil
  then show ?case by simp
next
  case (Cons i its)
  show ?case
  proof (cases "d i")
    case None
    with Cons.prems have "delete_resources_loop d et its (removeAll i ids, log @ [DeleterCall i]) = ((ids', log'), None)"
      by simp
    from Cons.IH[OF this] None show ?thesis
      by (auto simp: gone_def removeAll_filter_not_eq intro!: filter_cong)
  next
    case (Some e)
    show ?thesis
    proof (cases "exc_isinstance e et")
      case True
      with Some Cons.prems have "delete_resources_loop d et its (removeAll i ids, log @ [DeleterCall i]) = ((ids', log'), None)"
        by simp
      from Cons.IH[OF this] Some True show ?thesis
        by (auto simp: gone_def removeAll_filter_not_eq intro!: filter_cong)
    next
      case False
      with Some Cons.prems have n: "exc_isinstance e NeutronException"
        and "delete_resources_loop d et its (ids, log @ [DeleterCall i, LogDeleteFailed i]) = ((ids', log'), None)"
        by (auto split: if_splits)
      from Cons.IH[OF this(2)] Some False show ?thesis
        by (auto simp: gone_def intro!: filter_cong)
    qed
  qed
qed

lemma delete_hosting_loop_None:
  "delete_hosting_loop dp a None log = Some (log @ [LogSucceeded], None)"
  by (subst delete_hosting_loop.simps) simp

lemma delete_hosting_loop_abort:
  "a = DELETION_ATTEMPTS \<Longrightarrow> delete_hosting_loop dp a (Some mp) log =
     Some (log @ [LogAbortWarning DELETION_ATTEMPTS], None)"
  by (subst delete_hosting_loop.simps) simp

lemma delete_hosting_loop_step:
  "a \<noteq> DELETION_ATTEMPTS \<Longrightarrow>
   delete_hosting_loop dp a (Some mp) log =
     (let log1 = log @ (if a > 1 then [Sleep SECONDS_BETWEEN_DELETION_ATTEMPTS] else [])
                     @ [LogAttemptStarting a]
      in case delete_resources (dp a) PortNotFound ([p_id mp], log1) of
           ((ml, log2), Some e) \<Rightarrow> Some (log2, Some e)
         | ((ml, log2), None) \<Rightarrow>
             delete_hosting_loop dp (a + 1) (if ml = [] then None else Some mp) log2)"
  by (subst delete_hosting_loop.simps) simp

lemma delete_hosting_loop_total:
  "a \<le> DELETION_ATTEMPTS \<Longrightarrow> \<exists>y. delete_hosting_loop dp a mp log = Some y"
proof (induction "DELETION_ATTEMPTS - a" arbitrary: a mp log)
  case 0
  then have "a = DELETION_ATTEMPTS" by simp
  then show ?case
    by (cases mp) (simp_all add: delete_hosting_loop_None delete_hosting_loop_abort)
next
  case (Suc n)
  then have ne: "a \<noteq> DELETION_ATTEMPTS" and le: "a + 1 \<le> DELETION_ATTEMPTS"
    and n: "n = DELETION_ATTEMPTS - (a + 1)" by auto
  show ?case
  proof (cases mp)
    case None
    then show ?thesis by (simp add: delete_hosting_loop_None)
  next
    case (Some p)
    show ?thesis
      using Suc.hyps(1)[OF n le]
      by (auto simp: Some delete_hosting_loop_step[OF ne] Let_def split: prod.splits option.splits)
  qed
qed

text \<open>The loop of \<^verbatim>\<open>delete_hosting_device_resources\<close> ends, whatever the plugin answers.\<close>

lemma delete_hosting_device_resources_returns:
  "\<exists>y. delete_hosting_device_resources dp mp = Some y"
  unfolding delete_hosting_device_resources_def
  by (rule delete_hosting_loop_total) (simp add: DELETION_ATTEMPTS_def)

lemma delete_resources_single:
  "delete_resources d et ([i], log) =
     (if gone d et i then (([], log @ [DeleterCall i]), None)
      else if retained d et i then (([i], log @ [DeleterCall i, LogDeleteFailed i]), None)
      else (([i], log @ [DeleterCall i]), d i))"
  by (auto simp: delete_resources_def gone_def retained_def split: option.splits)

lemma delete_hosting_loop_succeeded_iff:
  assumes "a \<le> DELETION_ATTEMPTS" and "LogSucceeded \<notin> set log"
      and "delete_hosting_loop dp a (Some mp) log = Some (hlog, ex)"
  shows "(LogSucceeded \<in> set hlog) =
           (\<exists>k. a \<le> k \<and> k < DELETION_ATTEMPTS \<and> gone (dp k) PortNotFound (p_id mp)
                \<and> (\<forall>b. a \<le> b \<and> b < k \<longrightarrow> retained (dp b) PortNotFound (p_id mp)))"
  using assms
proof (induction "DELETION_ATTEMPTS - a" arbitrary: a log)
  case 0
  then have a: "a = DELETION_ATTEMPTS" by simp
  with 0 show ?case by (auto simp: delete_hosting_loop_abort)
next
  case (Suc n)
  then have ne: "a \<noteq> DELETION_ATTEMPTS" and le: "a + 1 \<le> DELETION_ATTEMPTS" and lt: "a < DELETION_ATTEMPTS"
    and n: "n = DELETION_ATTEMPTS - (a + 1)" by auto
  define log1 where "log1 = log @ (if a > 1 then [Sleep SECONDS_BETWEEN_DELETION_ATTEMPTS] else [])
                     @ [LogAttemptStarting a]"
  have l1: "LogSucceeded \<notin> set log1" using Suc.prems(2) by (simp add: log1_def)
  note step = delete_hosting_loop_step[OF ne, of dp mp log, folded log1_def, unfolded Let_def]
  show ?case
  proof (cases "gone (dp a) PortNotFound (p_id mp)")
    case True
    with Suc.prems(3) have "hlog = log1 @ [DeleterCall (p_id mp)] @ [LogSucceeded]"
      by (simp add: step delete_resources_single delete_hosting_loop_None)
    moreover have "\<exists>k. a \<le> k \<and> k < DELETION_ATTEMPTS \<and> gone (dp k) PortNotFound (p_id mp)
                \<and> (\<forall>b. a \<le> b \<and> b < k \<longrightarrow> retained (dp b) PortNotFound (p_id mp))"
      using True lt by (intro exI[of _ a]) auto
    ultimately show ?thesis by simp
  next
    case False
    show ?thesis
    proof (cases "retained (dp a) PortNotFound (p_id mp)")
      case True
      with False Suc.prems(3)
      have rec: "delete_hosting_loop dp (a + 1) (Some mp) (log1 @ [DeleterCall (p_id mp), LogDeleteFailed (p_id mp)]) = Some (hlog, ex)"
        by (simp add: step delete_resources_single)
      have l2: "LogSucceeded \<notin> set (log1 @ [DeleterCall (p_id mp), LogDeleteFailed (p_id mp)])"
        using l1 by simp
      have "(\<exists>k. a + 1 \<le> k \<and> k < DELETION_ATTEMPTS \<and> gone (dp k) PortNotFound (p_id mp)
                \<and> (\<forall>b. a + 1 \<le> b \<and> b < k \<longrightarrow> retained (dp b) PortNotFound (p_id mp)))
          = (\<exists>k. a \<le> k \<and> k < DELETION_ATTEMPTS \<and> gone (dp k) PortNotFound (p_id mp)
                \<and> (\<forall>b. a \<le> b \<and> b < k \<longrightarrow> retained (dp b) PortNotFound (p_id mp)))"
        (is "?L = ?R")
      proof
        assume ?L
        then obtain k where k: "a + 1 \<le> k" "k < DELETION_ATTEMPTS" "gone (dp k) PortNotFound (p_id mp)"
          "\<forall>b. a + 1 \<le> b \<and> b < k \<longrightarrow> retained (dp b) PortNotFound (p_id mp)" by blast
        have "\<forall>b. a \<le> b \<and> b < k \<longrightarrow> retained (dp b) PortNotFound (p_id mp)"
        proof (intro allI impI)
          fix b assume b: "a \<le> b \<and> b < k"
          show "retained (dp b) PortNotFound (p_id mp)"
          proof (cases "b = a")
            case True with \<open>retained (dp a) PortNotFound (p_id mp)\<close> show ?thesis by simp
          next
            case False with b k(4) show ?thesis by simp
          qed
        qed
        with k show ?R by (intro exI[of _ k]) auto
      next
        assume ?R
        then obtain k where k: "a \<le> k" "k < DELETION_ATTEMPTS" "gone (dp k) PortNotFound (p_id mp)"
          "\<forall>b. a \<le> b \<and> b < k \<longrightarrow> retained (dp b) PortNotFound (p_id mp)" by blast
        from k(3) False have "k \<noteq> a" by auto
        with k show ?L by (intro exI[of _ k]) auto
      qed
      with Suc.hyps(1)[OF n le l2 rec] show ?thesis by simp
    next
      case nr: False
      with False Suc.prems(3) have "hlog = log1 @ [DeleterCall (p_id mp)]"
        by (auto simp: step delete_resources_single gone_def split: option.splits)
      then have nl: "LogSucceeded \<notin> set hlog" using l1 by simp
      have "\<not> (\<exists>k. a \<le> k \<and> k < DELETION_ATTEMPTS \<and> gone (dp k) PortNotFound (p_id mp)
                \<and> (\<forall>b. a \<le> b \<and> b < k \<longrightarrow> retained (dp b) PortNotFound (p_id mp)))"
      proof
        assume "\<exists>k. a \<le> k \<and> k < DELETION_ATTEMPTS \<and> gone (dp k) PortNotFound (p_id mp)
                \<and> (\<forall>b. a \<le> b \<and> b < k \<longrightarrow> retained (dp b) PortNotFound (p_id mp))"
        then obtain k where k: "a \<le> k" "gone (dp k) PortNotFound (p_id mp)"
          "\<forall>b. a \<le> b \<and> b < k \<longrightarrow> retained (dp b) PortNotFound (p_id mp)" by blast
        show False
        proof (cases "k = a")
          case True with k(2) False show False by simp
        next
          case ne: False
          with k(1,3) have "retained (dp a) PortNotFound (p_id mp)" by simp
          with nr show False by simp
        qed
      qed
      with nl show ?thesis by simp
    qed
  qed
qed

text \<open>
  C10. When \<^verbatim>\<open>_delete_resources\<close> returns, an id of the set has been removed from it if
  and only if its deleter call returned or raised an exception of the expected (not-found)
  type; an id whose deletion raised another NeutronException is still in the set; and the
  set is empty exactly when every id went one of the two ways. The caller,
  \<^verbatim>\<open>delete_hosting_device_resources\<close>, drops \<^verbatim>\<open>mgmt_port\<close> on that test only: it
  reports success exactly when, at some attempt before the bound, the deletion of the
  management port returned or raised PortNotFound, every earlier attempt having failed
  with a retained NeutronException; a run of retained failures never counts as deleted.
\<close>

theorem delete_resources_removed_iff:
  "(delete_resources deleter exception_type (ids, log) = ((ids', log'), None) \<longrightarrow>
      set ids' \<subseteq> set ids
      \<and> (\<forall>i \<in> set ids. (i \<notin> set ids') =
            (deleter i = None \<or> (\<exists>e. deleter i = Some e \<and> exc_isinstance e exception_type)))
      \<and> (\<forall>i \<in> set ids. \<forall>e. deleter i = Some e \<and> \<not> exc_isinstance e exception_type
            \<and> exc_isinstance e NeutronException \<longrightarrow> i \<in> set ids')
      \<and> ((ids' = []) = (\<forall>i \<in> set ids. deleter i = None
            \<or> (\<exists>e. deleter i = Some e \<and> exc_isinstance e exception_type))))
   \<and> (delete_hosting_device_resources delete_port (Some mp) = Some (hlog, ex) \<longrightarrow>
        (LogSucceeded \<in> set hlog) =
          (\<exists>k. 1 \<le> k \<and> k < DELETION_ATTEMPTS
               \<and> (delete_port k (p_id mp) = None
                    \<or> (\<exists>e. delete_port k (p_id mp) = Some e \<and> exc_isinstance e PortNotFound))
               \<and> (\<forall>b. 1 \<le> b \<and> b < k \<longrightarrow>
                     (\<exists>e. delete_port b (p_id mp) = Some e \<and> \<not> exc_isinstance e PortNotFound
                          \<and> exc_isinstance e NeutronException))))"
proof (intro conjI impI)
  assume run: "delete_resources deleter exception_type (ids, log) = ((ids', log'), None)"
  then have "delete_resources_loop deleter exception_type ids (ids, log) = ((ids', log'), None)"
    unfolding delete_resources_def by simp
  then have eq: "ids' = filter (\<lambda>i. \<not> (i \<in> set ids \<and> gone deleter exception_type i)) ids"
    by (rule delete_resources_loop_filter)
  have g: "\<And>i. gone deleter exception_type i =
      (deleter i = None \<or> (\<exists>e. deleter i = Some e \<and> exc_isinstance e exception_type))"
    by (auto simp: gone_def split: option.splits)
  show "set ids' \<subseteq> set ids" unfolding eq by auto
  show "\<forall>i \<in> set ids. (i \<notin> set ids') =
          (deleter i = None \<or> (\<exists>e. deleter i = Some e \<and> exc_isinstance e exception_type))"
    unfolding eq by (auto simp: g)
  show "\<forall>i \<in> set ids. \<forall>e. deleter i = Some e \<and> \<not> exc_isinstance e exception_type
          \<and> exc_isinstance e NeutronException \<longrightarrow> i \<in> set ids'"
    unfolding eq by (auto simp: g)
  show "(ids' = []) = (\<forall>i \<in> set ids. deleter i = None
          \<or> (\<exists>e. deleter i = Some e \<and> exc_isinstance e exception_type))"
    unfolding eq by (auto simp: g filter_empty_conv)
next
  assume run: "delete_hosting_device_resources delete_port (Some mp) = Some (hlog, ex)"
  have g: "\<And>k. gone (delete_port k) PortNotFound (p_id mp) =
      (delete_port k (p_id mp) = None
        \<or> (\<exists>e. delete_port k (p_id mp) = Some e \<and> exc_isinstance e PortNotFound))"
    by (auto simp: gone_def split: option.splits)
  have r: "\<And>b. retained (delete_port b) PortNotFound (p_id mp) =
      (\<exists>e. delete_port b (p_id mp) = Some e \<and> \<not> exc_isinstance e PortNotFound
            \<and> exc_isinstance e NeutronException)"
    by (auto simp: retained_def split: option.splits)
  have le: "1 \<le> DELETION_ATTEMPTS" by (simp add: DELETION_ATTEMPTS_def)
  from run have "delete_hosting_loop delete_port 1 (Some mp) [] = Some (hlog, ex)"
    by (simp add: delete_hosting_device_resources_def)
  from delete_hosting_loop_succeeded_iff[OF le _ this]
  show "(LogSucceeded \<in> set hlog) =
          (\<exists>k. 1 \<le> k \<and> k < DELETION_ATTEMPTS
               \<and> (delete_port k (p_id mp) = None
                    \<or> (\<exists>e. delete_port k (p_id mp) = Some e \<and> exc_isinstance e PortNotFound))
               \<and> (\<forall>b. 1 \<le> b \<and> b < k \<longrightarrow>
                     (\<exists>e. delete_port b (p_id mp) = Some e \<and> \<not> exc_isinstance e PortNotFound
                          \<and> exc_isinstance e NeutronException)))"
    by (simp add: g r)
qed

theorem delete_resources_removed_iff_witness:
  "delete_resources (\<lambda>i. if i = ''a'' then None else if i = ''b'' then Some PortNotFound else Some NeutronException)
      PortNotFound ([''a'', ''b'', ''c''], [])
     = (([''c''], [DeleterCall ''a'', DeleterCall ''b'', DeleterCall ''c'', LogDeleteFailed ''c'']), None)
   \<and> ''a'' \<notin> set [''c''] \<and> ''c'' \<in> set [''c'']
   \<and> delete_hosting_device_resources (\<lambda>k _. if k < 3 then Some NeutronException else Some PortNotFound)
        (Some \<lparr>p_id = ''mgmt'', p_admin_state_up = True\<rparr>)
     = Some ([LogAttemptStarting 1, DeleterCall ''mgmt'', LogDeleteFailed ''mgmt'',
              Sleep 3, LogAttemptStarting 2, DeleterCall ''mgmt'', LogDeleteFailed ''mgmt'',
              Sleep 3, LogAttemptStarting 3, DeleterCall ''mgmt'', LogSucceeded], None)
   \<and> (\<exists>k. 1 \<le> k \<and> k < DELETION_ATTEMPTS
          \<and> ((if k < 3 then Some NeutronException else Some PortNotFound) = None
               \<or> (\<exists>e. (if k < 3 then Some NeutronException else Some PortNotFound) = Some e
                     \<and> exc_isinstance e PortNotFound))
          \<and> (\<forall>b. 1 \<le> b \<and> b < k \<longrightarrow>
                (\<exists>e. (if b < 3 then Some NeutronException else Some PortNotFound) = Some e
                     \<and> \<not> exc_isinstance e PortNotFound \<and> exc_isinstance e NeutronException)))"
proof -
  have r: "delete_resources (\<lambda>i. if i = ''a'' then None else if i = ''b'' then Some PortNotFound else Some NeutronException)
      PortNotFound ([''a'', ''b'', ''c''], [])
     = (([''c''], [DeleterCall ''a'', DeleterCall ''b'', DeleterCall ''c'', LogDeleteFailed ''c'']), None)"
    by (simp add: delete_resources_def exc_isinstance_def)
  have h: "delete_hosting_device_resources (\<lambda>k _. if k < 3 then Some NeutronException else Some PortNotFound)
        (Some \<lparr>p_id = ''mgmt'', p_admin_state_up = True\<rparr>)
     = Some ([LogAttemptStarting 1, DeleterCall ''mgmt'', LogDeleteFailed ''mgmt'',
              Sleep 3, LogAttemptStarting 2, DeleterCall ''mgmt'', LogDeleteFailed ''mgmt'',
              Sleep 3, LogAttemptStarting 3, DeleterCall ''mgmt'', LogSucceeded], None)"
    by (simp add: delete_hosting_device_resources_def delete_hosting_loop_step
          delete_hosting_loop_None delete_resources_def exc_isinstance_def DELETION_ATTEMPTS_def
          SECONDS_BETWEEN_DELETION_ATTEMPTS_def)
  have m: "LogSucceeded \<in> set [LogAttemptStarting 1, DeleterCall ''mgmt'', LogDeleteFailed ''mgmt'',
              Sleep 3, LogAttemptStarting 2, DeleterCall ''mgmt'', LogDeleteFailed ''mgmt'',
              Sleep 3, LogAttemptStarting 3, DeleterCall ''mgmt'', LogSucceeded]"
    by simp
  note t = delete_resources_removed_iff[of
      "\<lambda>i. if i = ''a'' then None else if i = ''b'' then Some PortNotFound else Some NeutronException"
      PortNotFound "[''a'', ''b'', ''c'']" "[]" "[''c'']"
      "[DeleterCall ''a'', DeleterCall ''b'', DeleterCall ''c'', LogDeleteFailed ''c'']"
      "\<lambda>k _. if k < 3 then Some NeutronException else Some PortNotFound"
      "\<lparr>p_id = ''mgmt'', p_admin_state_up = True\<rparr>"
      "[LogAttemptStarting 1, DeleterCall ''mgmt'', LogDeleteFailed ''mgmt'',
        Sleep 3, LogAttemptStarting 2, DeleterCall ''mgmt'', LogDeleteFailed ''mgmt'',
        Sleep 3, LogAttemptStarting 3, DeleterCall ''mgmt'', LogSucceeded]" None]
  note t1 = t[THEN conjunct1, rule_format, OF r]
  note t2 = iffD1[OF t[THEN conjunct2, rule_format, OF h] m]
  from t1 have a: "''a'' \<notin> set [''c''] \<and> ''c'' \<in> set [''c'']" by simp
  from r a h t2 show ?thesis by (intro conjI) blast+
qed

text \<open>
  C2. A management port whose deletion always fails with a NeutronException other than
  PortNotFound: the function returns after the warning, but the deleter has been called
  four times, one less than \<open>DELETION_ATTEMPTS\<close>, the number the warning reports.
\<close>

theorem delete_hosting_always_failing:
  "delete_hosting_device_resources (\<lambda>_ _. Some NeutronException)
       (Some \<lparr>p_id = ''mgmt'', p_admin_state_up = True\<rparr>)
     = Some ([LogAttemptStarting 1, DeleterCall ''mgmt'', LogDeleteFailed ''mgmt'',
              Sleep 3, LogAttemptStarting 2, DeleterCall ''mgmt'', LogDeleteFailed ''mgmt'',
              Sleep 3, LogAttemptStarting 3, DeleterCall ''mgmt'', LogDeleteFailed ''mgmt'',
              Sleep 3, LogAttemptStarting 4, DeleterCall ''mgmt'', LogDeleteFailed ''mgmt'',
              LogAbortWarning 5], None)
   \<and> deleter_calls [LogAttemptStarting 1, DeleterCall ''mgmt'', LogDeleteFailed ''mgmt'',
              Sleep 3, LogAttemptStarting 2, DeleterCall ''mgmt'', LogDeleteFailed ''mgmt'',
              Sleep 3, LogAttemptStarting 3, DeleterCall ''mgmt'', LogDeleteFailed ''mgmt'',
              Sleep 3, LogAttemptStarting 4, DeleterCall ''mgmt'', LogDeleteFailed ''mgmt'',
              LogAbortWarning 5] = 4
   \<and> DELETION_ATTEMPTS = 5"
  by (simp add: delete_hosting_device_resources_def delete_hosting_loop_step
        delete_hosting_loop_abort delete_resources_def exc_isinstance_def DELETION_ATTEMPTS_def
        SECONDS_BETWEEN_DELETION_ATTEMPTS_def deleter_calls_def)

section \<open>The port diff: properties\<close>

text \<open>
  C6, as the specification states it, fails: a port of the old list whose id is in the new
  list, but admin-down there, is returned among the old ports.
\<close>

theorem get_port_set_diffs_counterexample:
  "fst (get_port_set_diffs [\<lparr>p_id = ''p1'', p_admin_state_up = True\<rparr>]
                           [\<lparr>p_id = ''p1'', p_admin_state_up = False\<rparr>])
     \<noteq> spec_old_ports [\<lparr>p_id = ''p1'', p_admin_state_up = True\<rparr>]
                       [\<lparr>p_id = ''p1'', p_admin_state_up = False\<rparr>]"
  by (simp add: get_port_set_diffs_def spec_old_ports_def)

text \<open>
  C6, amended. The new ports are the items of the new list whose id is not among the old
  ids and is the id of an admin-up item of the new list; the old ports are the items of the
  old list whose id is not the id of an admin-up item of the new list. When the ids of the
  new list are distinct, the new ports are the admin-up items of the new list whose id is
  not among the old ids, as the specification says.
\<close>

theorem get_port_set_diffs_amended:
  "snd (get_port_set_diffs old new) =
       filter (\<lambda>p. p_id p \<notin> set (map p_id old) \<and> has_admin_up_id new (p_id p)) new
   \<and> fst (get_port_set_diffs old new) =
       filter (\<lambda>p. \<not> has_admin_up_id new (p_id p)) old
   \<and> (distinct (map p_id new) \<longrightarrow> snd (get_port_set_diffs old new) = spec_new_ports old new)"
proof -
  have d: "distinct (map p_id new) \<Longrightarrow> p \<in> set new \<Longrightarrow> has_admin_up_id new (p_id p) = p_admin_state_up p" for p
    unfolding has_admin_up_id_def
    by (auto simp: distinct_map inj_on_def)
  have new: "snd (get_port_set_diffs old new) =
       filter (\<lambda>p. p_id p \<notin> set (map p_id old) \<and> has_admin_up_id new (p_id p)) new"
    unfolding get_port_set_diffs_def Let_def has_admin_up_id_def
    by (auto intro!: filter_cong)
  have old: "fst (get_port_set_diffs old new) =
       filter (\<lambda>p. \<not> has_admin_up_id new (p_id p)) old"
    unfolding get_port_set_diffs_def Let_def has_admin_up_id_def by simp
  have "snd (get_port_set_diffs old new) = spec_new_ports old new" if "distinct (map p_id new)"
    unfolding new spec_new_ports_def using d[OF that]
    by (auto intro!: filter_cong)
  with new old show ?thesis by blast
qed

theorem get_port_set_diffs_amended_witness:
  "distinct (map p_id [\<lparr>p_id = ''p1'', p_admin_state_up = False\<rparr>, \<lparr>p_id = ''p2'', p_admin_state_up = True\<rparr>])
   \<and> get_port_set_diffs [\<lparr>p_id = ''p1'', p_admin_state_up = True\<rparr>]
        [\<lparr>p_id = ''p1'', p_admin_state_up = False\<rparr>, \<lparr>p_id = ''p2'', p_admin_state_up = True\<rparr>]
      = ([\<lparr>p_id = ''p1'', p_admin_state_up = True\<rparr>], [\<lparr>p_id = ''p2'', p_admin_state_up = True\<rparr>])"
  using get_port_set_diffs_amended[of "[\<lparr>p_id = ''p1'', p_admin_state_up = True\<rparr>]"
        "[\<lparr>p_id = ''p1'', p_admin_state_up = False\<rparr>, \<lparr>p_id = ''p2'', p_admin_state_up = True\<rparr>]"]
  by (simp add: spec_new_ports_def has_admin_up_id_def prod_eq_iff)

section \<open>Construction and the fleet: properties\<close>

text \<open>The constructor of \<^verbatim>\<open>CiscoRoutingPluginApi\<close>, whose \<^verbatim>\<open>super\<close> names its own class, returns.\<close>

lemma CiscoRoutingPluginApi_init_returns:
  "CiscoRoutingPluginApi_init None topic host =
     Inr \<lparr>api_topic = topic, api_default_version = BASE_RPC_API_VERSION, api_host = host\<rparr>"
  by (simp add: CiscoRoutingPluginApi_init_def py_super_def)

text \<open>
  C9. For every topic and host (and whatever \<^verbatim>\<open>RpcProxy.__init__\<close> would do), the
  constructor of \<^verbatim>\<open>PhyCiscoRoutingPluginApi\<close> raises TypeError: its \<^verbatim>\<open>super\<close> names
  \<^verbatim>\<open>CiscoRoutingPluginApi\<close>, which is not among the classes of the instance. Hence
  \<^verbatim>\<open>RoutingServiceHelperWithPhyContext.__init__\<close>, which builds it, never returns
  normally either.
\<close>

theorem PhyCiscoRoutingPluginApi_init_raises:
  "PhyCiscoRoutingPluginApi_init rpc_proxy_init topic host = Inl TypeError
   \<and> (\<exists>e. RoutingServiceHelperWithPhyContext_init iw host = Inl e)"
proof -
  have a: "PhyCiscoRoutingPluginApi_init r t h = Inl TypeError" for r t h
    by (simp add: PhyCiscoRoutingPluginApi_init_def py_super_def)
  show ?thesis
    by (simp add: a RoutingServiceHelperWithPhyContext_init_def split: option.splits)
qed

text \<open>
  C8. When the heartbeat to the control plane times out, the fleet-level
  \<^verbatim>\<open>process_service\<close> returns normally with every device context flagged for full
  resync and otherwise unchanged: same names, same state apart from the flag, and no call
  added to any context's trace, so no per-device pass has run.
\<close>

theorem fleet_heartbeat_timeout:
  assumes "heartbeat = Some e" and "exc_isinstance e MessagingTimeout"
  shows "fleet_process_service heartbeat worlds ctxs = (resync_asrs ctxs, None)
       \<and> (\<forall>x \<in> set (resync_asrs ctxs). fullsync (snd x))
       \<and> map fst (resync_asrs ctxs) = map fst ctxs
       \<and> map (\<lambda>x. snd x\<lparr>fullsync := True\<rparr>) ctxs = map snd (resync_asrs ctxs)
       \<and> map (\<lambda>x. trace (snd x)) (resync_asrs ctxs) = map (\<lambda>x. trace (snd x)) ctxs"
  using assms
  by (auto simp: fleet_process_service_def resync_asrs_def)

theorem fleet_heartbeat_timeout_witness:
  "fleet_process_service (Some MessagingTimeout) (\<lambda>_. \<lparr>w_call = \<lambda>_ _. None, w_fetch = \<lambda>_ _. []\<rparr>)
      [(''asr1'', ctx_pending), (''asr2'', PhyRouterContext_init)]
     = ([(''asr1'', ctx_pending\<lparr>fullsync := True\<rparr>), (''asr2'', PhyRouterContext_init)], None)"
  using fleet_heartbeat_timeout[of "Some MessagingTimeout" MessagingTimeout
      "\<lambda>_. \<lparr>w_call = \<lambda>_ _. None, w_fetch = \<lambda>_ _. []\<rparr>"
      "[(''asr1'', ctx_pending), (''asr2'', PhyRouterContext_init)]"]
  by (simp add: exc_isinstance_def resync_asrs_def PhyRouterContext_init_def)

lemma appended_refl: "appended s [] s"
  by (simp add: appended_def)

lemma appended_trans: "appended s n1 s1 \<Longrightarrow> appended s1 n2 s2 \<Longrightarrow> appended s (n1 @ n2) s2"
  by (simp add: appended_def)

lemma appended_new_events: "appended s new s' \<Longrightarrow> new_events s s' = new"
  by (simp add: appended_def new_events_def)

lemma appended_fields:
  "appended s new s' \<Longrightarrow> router_info s' = router_info s \<and> updated_routers s' = updated_routers s
     \<and> removed_routers s' = removed_routers s \<and> sync_devices s' = sync_devices s
     \<and> fullsync s' = fullsync s \<and> trace s' = trace s @ new"
  by (simp add: appended_def)

lemma call_ext:
  "call w ev s = (s', ex) \<Longrightarrow> appended s [(ev, ex)] s'"
  by (auto simp: call_def appended_def)

lemma seq_cases:
  assumes "seq r f = res"
  obtains (ok) s1 where "r = (s1, None)" and "f s1 = res"
        | (raised) s1 e where "r = (s1, Some e)" and "res = (s1, Some e)"
  using assms by (cases r; cases "snd r") (auto simp: seq_def)

lemma add_specD:
  assumes "add_spec mk upd ps st st' ex dn rest new"
  shows "ps = dn @ rest" and "fst st' = foldl (\<lambda>ri p. upd p ri) (fst st) dn"
    and "appended (snd st) new (snd st')"
    and "\<forall>p \<in> set dn. (mk p, None) \<in> set new"
    and "\<forall>x \<in> set new. \<exists>p \<in> set ps. fst x = SetSubnetInfo p \<or> fst x = mk p"
    and "ex = None \<longrightarrow> rest = []"
  using assms unfolding add_spec_def by blast+

lemma add_ports_loop_spec:
  "add_ports_loop w mk upd ps st = (st', ex) \<Longrightarrow> \<exists>dn rest new. add_spec mk upd ps st st' ex dn rest new"
proof (induction ps arbitrary: st)
  case Nil
  then have "add_spec mk upd [] st st' ex [] [] []"
    by (auto simp: add_spec_def appended_refl)
  then show ?case by blast
next
  case (Cons p ps)
  obtain s1 ex1 where c1: "call w (SetSubnetInfo p) (snd st) = (s1, ex1)" by fastforce
  note e1 = call_ext[OF c1]
  show ?case
  proof (cases ex1)
    case (Some e)
    with Cons.prems c1 have r: "st' = (fst st, s1)" "ex = Some e" by auto
    have "add_spec mk upd (p # ps) st st' ex [] (p # ps) [(SetSubnetInfo p, ex1)]"
      using e1 r by (simp add: add_spec_def)
    then show ?thesis by blast
  next
    case None
    obtain s2 ex2 where c2: "call w (mk p) s1 = (s2, ex2)" by fastforce
    note e2 = call_ext[OF c2]
    have e12: "appended (snd st) [(SetSubnetInfo p, ex1), (mk p, ex2)] s2"
      using appended_trans[OF e1 e2] by simp
    show ?thesis
    proof (cases ex2)
      case (Some e)
      with Cons.prems c1 c2 None have r: "st' = (fst st, s2)" "ex = Some e" by auto
      have "add_spec mk upd (p # ps) st st' ex [] (p # ps) [(SetSubnetInfo p, ex1), (mk p, ex2)]"
        using e12 r by (simp add: add_spec_def)
      then show ?thesis by blast
    next
      case n2: None
      with Cons.prems c1 c2 None
      have rec: "add_ports_loop w mk upd ps (upd p (fst st), s2) = (st', ex)" by simp
      from Cons.IH[OF rec] obtain dn rest new where
        a: "add_spec mk upd ps (upd p (fst st), s2) st' ex dn rest new" by blast
      note a1 = add_specD(1)[OF a] and a2 = add_specD(2)[OF a, simplified]
        and a3 = add_specD(3)[OF a, simplified] and a4 = add_specD(4)[OF a]
        and a5 = add_specD(5)[OF a] and a6 = add_specD(6)[OF a]
      have e: "appended (snd st) ([(SetSubnetInfo p, ex1), (mk p, ex2)] @ new) (snd st')"
        by (rule appended_trans[OF e12 a3])
      have "add_spec mk upd (p # ps) st st' ex (p # dn) rest ([(SetSubnetInfo p, ex1), (mk p, ex2)] @ new)"
        unfolding add_spec_def
      proof (intro conjI)
        show "p # ps = (p # dn) @ rest" using a1 by simp
        show "fst st' = foldl (\<lambda>ri p. upd p ri) (fst st) (p # dn)" using a2 by simp
        show "appended (snd st) ([(SetSubnetInfo p, ex1), (mk p, ex2)] @ new) (snd st')" by (rule e)
        show "\<forall>q\<in>set (p # dn). (mk q, None) \<in> set ([(SetSubnetInfo p, ex1), (mk p, ex2)] @ new)"
          using a4 n2 by simp
        show "\<forall>x\<in>set ([(SetSubnetInfo p, ex1), (mk p, ex2)] @ new).
                \<exists>q\<in>set (p # ps). fst x = SetSubnetInfo q \<or> fst x = mk q"
          using a5 by auto
        show "ex = None \<longrightarrow> rest = []" by (rule a6)
      qed
      then show ?thesis by blast
    qed
  qed
qed

lemma remove_specD:
  assumes "remove_spec mk upd ps st st' ex dn rest new"
  shows "ps = dn @ rest" and "fst st' = foldl (\<lambda>ri p. upd p ri) (fst st) dn"
    and "appended (snd st) new (snd st')"
    and "new = map (\<lambda>p. (mk p, None)) dn
                @ (case ex of None \<Rightarrow> [] | Some e \<Rightarrow> [(mk (hd rest), Some e)])"
    and "ex = None \<longrightarrow> rest = []" and "ex \<noteq> None \<longrightarrow> rest \<noteq> []"
  using assms unfolding remove_spec_def by blast+

lemma remove_ports_loop_spec:
  "remove_ports_loop w mk upd ps st = (st', ex) \<Longrightarrow> \<exists>dn rest new. remove_spec mk upd ps st st' ex dn rest new"
proof (induction ps arbitrary: st)
  case Nil
  then have "remove_spec mk upd [] st st' ex [] [] []"
    by (auto simp: remove_spec_def appended_refl)
  then show ?case by blast
next
  case (Cons p ps)
  obtain s1 ex1 where c1: "call w (mk p) (snd st) = (s1, ex1)" by fastforce
  note e1 = call_ext[OF c1]
  show ?case
  proof (cases ex1)
    case (Some e)
    with Cons.prems c1 have r: "st' = (fst st, s1)" "ex = Some e" by auto
    have "remove_spec mk upd (p # ps) st st' ex [] (p # ps) [(mk p, ex1)]"
      using e1 r Some by (simp add: remove_spec_def)
    then show ?thesis by blast
  next
    case None
    with Cons.prems c1
    have rec: "remove_ports_loop w mk upd ps (upd p (fst st), s1) = (st', ex)" by simp
    from Cons.IH[OF rec] obtain dn rest new where
      a: "remove_spec mk upd ps (upd p (fst st), s1) st' ex dn rest new" by blast
    note a1 = remove_specD(1)[OF a] and a2 = remove_specD(2)[OF a, simplified]
      and a3 = remove_specD(3)[OF a, simplified] and a4 = remove_specD(4)[OF a]
      and a5 = remove_specD(5)[OF a] and a6 = remove_specD(6)[OF a]
    have e: "appended (snd st) ([(mk p, ex1)] @ new) (snd st')"
      by (rule appended_trans[OF e1 a3])
    have "remove_spec mk upd (p # ps) st st' ex (p # dn) rest ([(mk p, ex1)] @ new)"
      unfolding remove_spec_def
    proof (intro conjI)
      show "p # ps = (p # dn) @ rest" using a1 by simp
      show "fst st' = foldl (\<lambda>ri p. upd p ri) (fst st) (p # dn)" using a2 by simp
      show "appended (snd st) ([(mk p, ex1)] @ new) (snd st')" by (rule e)
      show "[(mk p, ex1)] @ new = map (\<lambda>p. (mk p, None)) (p # dn)
                @ (case ex of None \<Rightarrow> [] | Some e \<Rightarrow> [(mk (hd rest), Some e)])"
        using a4 None by simp
      show "ex = None \<longrightarrow> rest = []" by (rule a5)
      show "ex \<noteq> None \<longrightarrow> rest \<noteq> []" by (rule a6)
    qed
    then show ?thesis by blast
  qed
qed

lemma hoareE_I:
  assumes "\<And>st st'. f st = (st', None) \<Longrightarrow> P st \<Longrightarrow> Q st'"
      and "\<And>st st' e. f st = (st', Some e) \<Longrightarrow> P st \<Longrightarrow> J st'"
  shows "hoareE P Q J f"
  unfolding hoareE_def using assms by (auto split: option.splits)

lemma hoareE_D:
  assumes "hoareE P Q J f" and "f st = (st', ex)" and "P st"
  shows "case ex of None \<Rightarrow> Q st' | Some e \<Rightarrow> J st'"
  using assms unfolding hoareE_def by blast

lemma hoareE_seq:
  assumes f: "hoareE P Q J f" and g: "hoareE Q R J g"
  shows "hoareE P R J (\<lambda>st. seq (f st) g)"
proof (rule hoareE_I)
  fix st st'
  assume a: "seq (f st) g = (st', None)" and p: "P st"
  from a show "R st'"
  proof (cases rule: seq_cases)
    case (ok s1)
    from hoareE_D[OF f ok(1) p] have "Q s1" by simp
    from hoareE_D[OF g ok(2) this] show ?thesis by simp
  next
    case (raised s1 e)
    then show ?thesis by simp
  qed
next
  fix st st' e
  assume a: "seq (f st) g = (st', Some e)" and p: "P st"
  from a show "J st'"
  proof (cases rule: seq_cases)
    case (ok s1)
    from hoareE_D[OF f ok(1) p] have "Q s1" by simp
    from hoareE_D[OF g ok(2) this] show ?thesis by simp
  next
    case (raised s1 e')
    with hoareE_D[OF f raised(1) p] show ?thesis by simp
  qed
qed

lemma hoare_add_loop:
  assumes ok: "\<And>ri new n. I ri new \<Longrightarrow> \<forall>p\<in>set ps. (mk p, None) \<in> set n
                  \<Longrightarrow> \<forall>x\<in>set n. \<exists>p\<in>set ps. fst x = SetSubnetInfo p \<or> fst x = mk p
                  \<Longrightarrow> Q (foldl (\<lambda>ri p. upd p ri) ri ps) (new @ n)"
      and fail: "\<And>ri new dn rest n. I ri new \<Longrightarrow> ps = dn @ rest \<Longrightarrow> \<forall>p\<in>set dn. (mk p, None) \<in> set n
                  \<Longrightarrow> \<forall>x\<in>set n. \<exists>p\<in>set ps. fst x = SetSubnetInfo p \<or> fst x = mk p
                  \<Longrightarrow> J (foldl (\<lambda>ri p. upd p ri) ri dn) (new @ n)"
  shows "hoareE (since s0 I) (since s0 Q) (since s0 J) (add_ports_loop w mk upd ps)"
proof (rule hoareE_I)
  fix st st'
  assume a: "add_ports_loop w mk upd ps st = (st', None)" and p: "since s0 I st"
  from p obtain new where n: "appended s0 new (snd st)" "I (fst st) new" unfolding since_def by blast
  from add_ports_loop_spec[OF a] obtain dn rest n where sp: "add_spec mk upd ps st st' None dn rest n" by blast
  note d = add_specD[OF sp]
  from d(6) d(1) have dn: "dn = ps" by simp
  have "Q (fst st') (new @ n)" unfolding d(2) dn
    using n(2) d(4,5) unfolding dn by (rule ok)
  with appended_trans[OF n(1) d(3)] show "since s0 Q st'" unfolding since_def by blast
next
  fix st st' e
  assume a: "add_ports_loop w mk upd ps st = (st', Some e)" and p: "since s0 I st"
  from p obtain new where n: "appended s0 new (snd st)" "I (fst st) new" unfolding since_def by blast
  from add_ports_loop_spec[OF a] obtain dn rest n where sp: "add_spec mk upd ps st st' (Some e) dn rest n" by blast
  note d = add_specD[OF sp]
  have "J (fst st') (new @ n)" unfolding d(2)
    using n(2) d(1,4,5) by (rule fail)
  with appended_trans[OF n(1) d(3)] show "since s0 J st'" unfolding since_def by blast
qed

lemma hoare_remove_loop:
  assumes ok: "\<And>ri new. I ri new \<Longrightarrow> Q (foldl (\<lambda>ri p. upd p ri) ri ps) (new @ map (\<lambda>p. (mk p, None)) ps)"
      and fail: "\<And>ri new dn p rest e. I ri new \<Longrightarrow> ps = dn @ p # rest
                  \<Longrightarrow> J (foldl (\<lambda>ri p. upd p ri) ri dn) (new @ map (\<lambda>p. (mk p, None)) dn @ [(mk p, Some e)])"
  shows "hoareE (since s0 I) (since s0 Q) (since s0 J) (remove_ports_loop w mk upd ps)"
proof (rule hoareE_I)
  fix st st'
  assume a: "remove_ports_loop w mk upd ps st = (st', None)" and p: "since s0 I st"
  from p obtain new where n: "appended s0 new (snd st)" "I (fst st) new" unfolding since_def by blast
  from remove_ports_loop_spec[OF a] obtain dn rest n where sp: "remove_spec mk upd ps st st' None dn rest n" by blast
  note d = remove_specD[OF sp]
  from d(5) d(1) have dn: "dn = ps" by simp
  have nn: "n = map (\<lambda>p. (mk p, None)) ps" using d(4) dn by simp
  have "Q (fst st') (new @ n)" unfolding d(2) dn nn
    using n(2) by (rule ok)
  with appended_trans[OF n(1) d(3)] show "since s0 Q st'" unfolding since_def by blast
next
  fix st st' e
  assume a: "remove_ports_loop w mk upd ps st = (st', Some e)" and p: "since s0 I st"
  from p obtain new where n: "appended s0 new (snd st)" "I (fst st) new" unfolding since_def by blast
  from remove_ports_loop_spec[OF a] obtain dn rest n where sp: "remove_spec mk upd ps st st' (Some e) dn rest n" by blast
  note d = remove_specD[OF sp]
  from d(6) obtain q rest' where r: "rest = q # rest'" by (cases rest) auto
  have nn: "n = map (\<lambda>p. (mk p, None)) dn @ [(mk q, Some e)]" using d(4) r by simp
  have "J (fst st') (new @ n)" unfolding d(2) nn
    using n(2) d(1)[unfolded r] by (rule fail)
  with appended_trans[OF n(1) d(3)] show "since s0 J st'" unfolding since_def by blast
qed

lemma hoare_call_ri:
  assumes ok: "\<And>ri new. I ri new \<Longrightarrow> Q ri (new @ [(ev, None)])"
      and fail: "\<And>ri new e. I ri new \<Longrightarrow> J ri (new @ [(ev, Some e)])"
  shows "hoareE (since s0 I) (since s0 Q) (since s0 J) (call_ri w ev)"
proof (rule hoareE_I)
  fix st st'
  assume a: "call_ri w ev st = (st', None)" and p: "since s0 I st"
  from p obtain new where n: "appended s0 new (snd st)" "I (fst st) new" unfolding since_def by blast
  from a have c: "call w ev (snd st) = (snd st', None)" and f: "fst st' = fst st"
    by (auto simp: call_ri_def split: prod.splits)
  from appended_trans[OF n(1) call_ext[OF c]] ok[OF n(2)] f show "since s0 Q st'"
    unfolding since_def by auto
next
  fix st st' e
  assume a: "call_ri w ev st = (st', Some e)" and p: "since s0 I st"
  from p obtain new where n: "appended s0 new (snd st)" "I (fst st) new" unfolding since_def by blast
  from a have c: "call w ev (snd st) = (snd st', Some e)" and f: "fst st' = fst st"
    by (auto simp: call_ri_def split: prod.splits)
  from appended_trans[OF n(1) call_ext[OF c]] fail[OF n(2)] f show "since s0 J st'"
    unfolding since_def by auto
qed

lemma hoare_skip:
  assumes "\<And>ri new. I ri new \<Longrightarrow> Q ri new"
  shows "hoareE (since s0 I) (since s0 Q) (since s0 J) (\<lambda>st. (st, None))"
  by (rule hoareE_I) (auto simp: since_def intro: assms)

lemma hoare_floating_ips:
  assumes none: "\<And>ri new. gw_port = None \<Longrightarrow> I ri new \<Longrightarrow> Q ri new"
      and ok: "\<And>ri new. gw_port \<noteq> None \<Longrightarrow> I ri new \<Longrightarrow> Q ri (new @ [(ev, None)])"
      and fail: "\<And>ri new e. gw_port \<noteq> None \<Longrightarrow> I ri new \<Longrightarrow> J ri (new @ [(ev, Some e)])"
  shows "hoareE (since s0 I) (since s0 Q) (since s0 J)
           (\<lambda>st4. case gw_port of None \<Rightarrow> (st4, None) | Some gw \<Rightarrow> call_ri w ev st4)"
proof (cases gw_port)
  case None
  then show ?thesis using hoare_skip[of I Q s0 J] none by simp
next
  case (Some gw)
  then show ?thesis using hoare_call_ri[of I Q ev J s0 w] ok fail by simp
qed

lemma hoare_routes:
  assumes ok: "\<And>ri new. I ri new \<Longrightarrow> Q (ri\<lparr>ex_gw_port := gw_port\<rparr>) (new @ [(ev, None)])"
      and fail: "\<And>ri new e. I ri new \<Longrightarrow> J (ri\<lparr>ex_gw_port := gw_port\<rparr>) (new @ [(ev, Some e)])"
  shows "hoareE (since s0 I) (since s0 Q) (since s0 J)
           (\<lambda>st5. call_ri w ev ((fst st5)\<lparr>ex_gw_port := gw_port\<rparr>, snd st5))"
proof (rule hoareE_I)
  fix st st'
  assume a: "call_ri w ev ((fst st)\<lparr>ex_gw_port := gw_port\<rparr>, snd st) = (st', None)" and p: "since s0 I st"
  from p obtain new where n: "appended s0 new (snd st)" "I (fst st) new" unfolding since_def by blast
  from a have c: "call w ev (snd st) = (snd st', None)" and f: "fst st' = (fst st)\<lparr>ex_gw_port := gw_port\<rparr>"
    by (auto simp: call_ri_def split: prod.splits)
  from appended_trans[OF n(1) call_ext[OF c]] ok[OF n(2)] f show "since s0 Q st'"
    unfolding since_def by auto
next
  fix st st' e
  assume a: "call_ri w ev ((fst st)\<lparr>ex_gw_port := gw_port\<rparr>, snd st) = (st', Some e)" and p: "since s0 I st"
  from p obtain new where n: "appended s0 new (snd st)" "I (fst st) new" unfolding since_def by blast
  from a have c: "call w ev (snd st) = (snd st', Some e)" and f: "fst st' = (fst st)\<lparr>ex_gw_port := gw_port\<rparr>"
    by (auto simp: call_ri_def split: prod.splits)
  from appended_trans[OF n(1) call_ext[OF c]] fail[OF n(2)] f show "since s0 J st'"
    unfolding since_def by auto
qed

lemma process_router_try_hoare:
  assumes s1: "hoareE (since s0 I0) (since s0 I1) (since s0 J)
                 (add_ports_loop w (InternalNetworkAdded (router_id ri0)) append_internal_port
                    (snd (get_port_set_diffs (internal_ports ri0) (r_interfaces (router ri0)))))"
      and s2: "hoareE (since s0 I1) (since s0 I2) (since s0 J)
                 (remove_ports_loop w (InternalNetworkRemoved (router_id ri0)) remove_internal_port
                    (fst (get_port_set_diffs (internal_ports ri0) (r_interfaces (router ri0)))))"
      and s3: "hoareE (since s0 I2) (since s0 I3) (since s0 J)
                 (add_ports_loop w (ExternalGatewayAdded (router_id ri0)) append_ha_gw_port
                    (snd (get_port_set_diffs (ha_gw_ports ri0) (r_ha_gw_ports (router ri0)))))"
      and s4: "hoareE (since s0 I3) (since s0 I4) (since s0 J)
                 (remove_ports_loop w (ExternalGatewayRemoved (router_id ri0)) remove_ha_gw_port
                    (fst (get_port_set_diffs (ha_gw_ports ri0) (r_ha_gw_ports (router ri0)))))"
      and s5: "hoareE (since s0 I4) (since s0 I5) (since s0 J)
                 (\<lambda>st4. case r_gw_port (router ri0) of None \<Rightarrow> (st4, None)
                        | Some gw \<Rightarrow> call_ri w (ProcessRouterFloatingIps (router_id ri0)) st4)"
      and s6: "hoareE (since s0 I5) (since s0 I6) (since s0 J)
                 (\<lambda>st5. call_ri w (RoutesUpdated (router_id ri0))
                           ((fst st5)\<lparr>ex_gw_port := r_gw_port (router ri0)\<rparr>, snd st5))"
      and init: "I0 (ri0\<lparr>ha_info := r_ha_info (router ri0)\<rparr>) []"
      and run: "process_router_try w (ri0, s0) = (st', ex)"
  shows "case ex of None \<Rightarrow> since s0 I6 st' | Some e \<Rightarrow> since s0 J st'"
proof -
  note h = hoareE_seq[OF s1 hoareE_seq[OF s2 hoareE_seq[OF s3 hoareE_seq[OF s4 hoareE_seq[OF s5 s6]]]]]
  have p: "since s0 I0 (ri0\<lparr>ha_info := r_ha_info (router ri0)\<rparr>, s0)"
    unfolding since_def using init appended_refl by auto
  from run have r: "seq (add_ports_loop w (InternalNetworkAdded (router_id ri0)) append_internal_port
                    (snd (get_port_set_diffs (internal_ports ri0) (r_interfaces (router ri0))))
                    (ri0\<lparr>ha_info := r_ha_info (router ri0)\<rparr>, s0)) 
       (\<lambda>st1. seq (remove_ports_loop w (InternalNetworkRemoved (router_id ri0)) remove_internal_port
                    (fst (get_port_set_diffs (internal_ports ri0) (r_interfaces (router ri0)))) st1)
       (\<lambda>st2. seq (add_ports_loop w (ExternalGatewayAdded (router_id ri0)) append_ha_gw_port
                    (snd (get_port_set_diffs (ha_gw_ports ri0) (r_ha_gw_ports (router ri0)))) st2)
       (\<lambda>st3. seq (remove_ports_loop w (ExternalGatewayRemoved (router_id ri0)) remove_ha_gw_port
                    (fst (get_port_set_diffs (ha_gw_ports ri0) (r_ha_gw_ports (router ri0)))) st3)
       (\<lambda>st4. seq (case r_gw_port (router ri0) of None \<Rightarrow> (st4, None)
                        | Some gw \<Rightarrow> call_ri w (ProcessRouterFloatingIps (router_id ri0)) st4)
       (\<lambda>st5. call_ri w (RoutesUpdated (router_id ri0))
                           ((fst st5)\<lparr>ex_gw_port := r_gw_port (router ri0)\<rparr>, snd st5)))))) = (st', ex)"
    unfolding process_router_try_def Let_def by (simp cong: option.case_cong)
  from hoareE_D[OF h r p] show ?thesis .
qed

lemma foldl_upd_frame:
  "(\<And>p ri. f (upd p ri) = f ri) \<Longrightarrow> f (foldl (\<lambda>ri p. upd p ri) ri ps) = f ri"
  by (induction ps arbitrary: ri) simp_all





lemma upd_frames:
  "router_id (append_internal_port p ri) = router_id ri"
  "router_id (remove_internal_port p ri) = router_id ri"
  "router_id (append_ha_gw_port p ri) = router_id ri"
  "router_id (remove_ha_gw_port p ri) = router_id ri"
  "ha_gw_ports (append_internal_port p ri) = ha_gw_ports ri"
  "ha_gw_ports (remove_internal_port p ri) = ha_gw_ports ri"
  "internal_ports (append_ha_gw_port p ri) = internal_ports ri"
  "internal_ports (remove_ha_gw_port p ri) = internal_ports ri"
  by (simp_all add: append_internal_port_def remove_internal_port_def append_ha_gw_port_def
        remove_ha_gw_port_def)

text \<open>The events of one \<^verbatim>\<open>_process_router\<close> all satisfy a property that its seven kinds of call satisfy.\<close>

lemma process_router_try_events:
  assumes run: "process_router_try w (ri0, s0) = (st', ex)"
      and P: "\<And>p. P (SetSubnetInfo p)" "\<And>p. P (InternalNetworkAdded (router_id ri0) p)"
             "\<And>p. P (InternalNetworkRemoved (router_id ri0) p)"
             "\<And>p. P (ExternalGatewayAdded (router_id ri0) p)"
             "\<And>p. P (ExternalGatewayRemoved (router_id ri0) p)"
             "r_gw_port (router ri0) \<noteq> None \<Longrightarrow> P (ProcessRouterFloatingIps (router_id ri0))"
             "P (RoutesUpdated (router_id ri0))"
  shows "\<exists>new. appended s0 new (snd st') \<and> (\<forall>x\<in>set new. P (fst x))
           \<and> (ex = None \<longrightarrow> new \<noteq> [] \<and> last new = (RoutesUpdated (router_id ri0), None))
           \<and> router_id (fst st') = router_id ri0"
proof -
  define I where "I = (\<lambda>(ri::RouterInfo) (new::trace). (\<forall>x\<in>set new. P (fst x)) \<and> router_id ri = router_id ri0)"
  define I6 where "I6 = (\<lambda>(ri::RouterInfo) (new::trace). I ri new
                          \<and> new \<noteq> [] \<and> last new = (RoutesUpdated (router_id ri0), None))"
  have s1: "hoareE (since s0 I) (since s0 I) (since s0 I)
              (add_ports_loop w (InternalNetworkAdded (router_id ri0)) append_internal_port ps)" for ps
    by (rule hoare_add_loop) (auto simp: I_def P foldl_upd_frame upd_frames)
  have s2: "hoareE (since s0 I) (since s0 I) (since s0 I)
              (remove_ports_loop w (InternalNetworkRemoved (router_id ri0)) remove_internal_port ps)" for ps
    by (rule hoare_remove_loop) (auto simp: I_def P foldl_upd_frame upd_frames)
  have s3: "hoareE (since s0 I) (since s0 I) (since s0 I)
              (add_ports_loop w (ExternalGatewayAdded (router_id ri0)) append_ha_gw_port ps)" for ps
    by (rule hoare_add_loop) (auto simp: I_def P foldl_upd_frame upd_frames)
  have s4: "hoareE (since s0 I) (since s0 I) (since s0 I)
              (remove_ports_loop w (ExternalGatewayRemoved (router_id ri0)) remove_ha_gw_port ps)" for ps
    by (rule hoare_remove_loop) (auto simp: I_def P foldl_upd_frame upd_frames)
  have s5: "hoareE (since s0 I) (since s0 I) (since s0 I)
              (\<lambda>st4. case r_gw_port (router ri0) of None \<Rightarrow> (st4, None)
                     | Some gw \<Rightarrow> call_ri w (ProcessRouterFloatingIps (router_id ri0)) st4)"
    by (rule hoare_floating_ips) (auto simp: I_def P)
  have s6: "hoareE (since s0 I) (since s0 I6) (since s0 I)
              (\<lambda>st5. call_ri w (RoutesUpdated (router_id ri0))
                        ((fst st5)\<lparr>ex_gw_port := r_gw_port (router ri0)\<rparr>, snd st5))"
    by (rule hoare_routes) (auto simp: I_def I6_def P)
  have init: "I (ri0\<lparr>ha_info := r_ha_info (router ri0)\<rparr>) []" by (simp add: I_def)
  from process_router_try_hoare[OF s1 s2 s3 s4 s5 s6 init run]
  show ?thesis
    by (cases ex) (auto simp: since_def I_def I6_def)
qed

lemma process_router_cases:
  assumes "process_router w st0 = (st', ex)"
  obtains st1 where "process_router_try w st0 = (st1, ex)" and "fst st' = fst st1"
    and "snd st' = snd st1 \<or> (\<exists>e. ex = Some e \<and> exc_isinstance e DriverException
            \<and> snd st' = (snd st1)\<lparr>updated_routers := List.insert (router_id (fst st1)) (updated_routers (snd st1))\<rparr>)"
proof -
  obtain st1 ex1 where t: "process_router_try w st0 = (st1, ex1)" by fastforce
  show ?thesis
  proof (cases ex1)
    case None
    with t assms have "st' = st1" "ex = None" by (simp_all add: process_router_def)
    with t None that show ?thesis by simp
  next
    case (Some e)
    show ?thesis
    proof (cases "exc_isinstance e DriverException")
      case True
      with t Some assms have "ex = Some e" "fst st' = fst st1"
        "snd st' = (snd st1)\<lparr>updated_routers := List.insert (router_id (fst st1)) (updated_routers (snd st1))\<rparr>"
        by (auto simp: process_router_def)
      with t Some True that show ?thesis by blast
    next
      case False
      with t Some assms have "st' = st1" "ex = Some e" by (simp_all add: process_router_def)
      with t Some that show ?thesis by simp
    qed
  qed
qed

lemma process_router_eq:
  "process_router w st0 =
     ((fst (fst (process_router_try w st0)),
       if raised_driver (snd (process_router_try w st0))
       then (snd (fst (process_router_try w st0)))\<lparr>updated_routers :=
              List.insert (router_id (fst (fst (process_router_try w st0))))
                (updated_routers (snd (fst (process_router_try w st0))))\<rparr>
       else snd (fst (process_router_try w st0))),
      snd (process_router_try w st0))"
  by (cases "process_router_try w st0"; cases "snd (process_router_try w st0)")
     (auto simp: process_router_def raised_driver_def)

lemma process_router_spec:
  assumes run: "process_router w (ri, s) = ((ri', s'), ex)"
  shows "\<exists>new. trace s' = trace s @ new \<and> (\<forall>x\<in>set new. work_for (router_id ri) (fst x))
           \<and> router_info s' = router_info s \<and> fullsync s' = fullsync s
           \<and> removed_routers s' = removed_routers s \<and> sync_devices s' = sync_devices s
           \<and> set (updated_routers s) \<subseteq> set (updated_routers s')
           \<and> set (updated_routers s') \<subseteq> insert (router_id ri) (set (updated_routers s))
           \<and> router_id ri' = router_id ri
           \<and> (raised_driver ex \<longrightarrow> router_id ri \<in> set (updated_routers s'))"
proof -
  obtain st1 ex1 where t: "process_router_try w (ri, s) = (st1, ex1)" by fastforce
  from run have e: "ex = ex1" and f: "ri' = fst st1"
    and c: "s' = (if raised_driver ex1
                  then (snd st1)\<lparr>updated_routers := List.insert (router_id (fst st1)) (updated_routers (snd st1))\<rparr>
                  else snd st1)"
    unfolding process_router_eq t by (auto split: if_splits)
  from process_router_try_events[OF t, of "work_for (router_id ri)"]
  obtain new where n: "appended s new (snd st1)" "\<forall>x\<in>set new. work_for (router_id ri) (fst x)"
    "router_id (fst st1) = router_id ri"
    by (auto simp: work_for_def)
  note fl = appended_fields[OF n(1)]
  have "trace s' = trace s @ new \<and> router_info s' = router_info s \<and> fullsync s' = fullsync s
           \<and> removed_routers s' = removed_routers s \<and> sync_devices s' = sync_devices s
           \<and> set (updated_routers s) \<subseteq> set (updated_routers s')
           \<and> set (updated_routers s') \<subseteq> insert (router_id ri) (set (updated_routers s))
           \<and> (raised_driver ex \<longrightarrow> router_id ri \<in> set (updated_routers s'))"
    unfolding c e using fl n(3) by auto
  with n(2,3) f show ?thesis by blast
qed

lemma keys_match_update:
  "list_all (\<lambda>kv. router_id (snd kv) = fst kv) al \<Longrightarrow> router_id v = k
     \<Longrightarrow> list_all (\<lambda>kv. router_id (snd kv) = fst kv) (AList.update k v al)"
  by (induction al) auto

lemma keys_match_delete:
  "list_all (\<lambda>kv. router_id (snd kv) = fst kv) al
     \<Longrightarrow> list_all (\<lambda>kv. router_id (snd kv) = fst kv) (AList.delete k al)"
  by (induction al) auto

lemma keys_match_lookup:
  "keys_match s \<Longrightarrow> map_of (router_info s) k = Some ri \<Longrightarrow> router_id ri = k"
proof -
  assume km: "keys_match s" and m: "map_of (router_info s) k = Some ri"
  from m have "(k, ri) \<in> set (router_info s)" by (rule map_of_SomeD)
  with km show ?thesis unfolding keys_match_def list_all_iff by fastforce
qed

lemma router_added_spec:
  assumes "router_added w rid r s = (s', ex)"
  shows "s' = s\<lparr>trace := trace s @ [(RouterAdded rid, ex)],
               router_info := (if ex = None then AList.update rid (RouterInfo_init rid r) (router_info s)
                               else router_info s)\<rparr>"
  using assms by (auto simp: router_added_def call_def split: option.splits)

lemma router_id_init [simp]: "router_id (RouterInfo_init rid r) = rid"
  by (simp add: RouterInfo_init_def set_router_def)

lemma router_id_set_router [simp]: "router_id (set_router r ri) = router_id ri"
  by (simp add: set_router_def)

lemma step_ok_trans:
  "step_ok rid s s1 n1 \<Longrightarrow> step_ok rid s1 s2 n2 \<Longrightarrow> step_ok rid s s2 (n1 @ n2)"
  unfolding step_ok_def by auto

lemma router_try_tail_spec:
  assumes run: "router_try_tail w r s1 = (s', ex)" and km: "keys_match s1"
  shows "\<exists>new. step_ok (r_id r) s1 s' new"
proof (cases "map_of (router_info s1) (r_id r)")
  case None
  with run have "s' = s1" by (simp add: router_try_tail_def)
  with km have "step_ok (r_id r) s1 s' []" by (auto simp: step_ok_def)
  then show ?thesis ..
next
  case (Some ri)
  obtain ri' s2 ex2 where p: "process_router w (set_router r ri, s1) = ((ri', s2), ex2)"
    by (metis surj_pair)
  with run Some have s': "s' = s2\<lparr>router_info := AList.update (r_id r) ri' (router_info s2)\<rparr>"
    by (simp add: router_try_tail_def)
  have rid: "router_id ri = r_id r" using keys_match_lookup[OF km Some] .
  from process_router_spec[OF p] obtain new where
    n: "trace s2 = trace s1 @ new" "\<forall>x\<in>set new. work_for (r_id r) (fst x)"
       "router_info s2 = router_info s1" "fullsync s2 = fullsync s1"
       "removed_routers s2 = removed_routers s1" "sync_devices s2 = sync_devices s1"
       "set (updated_routers s1) \<subseteq> set (updated_routers s2)"
       "set (updated_routers s2) \<subseteq> insert (r_id r) (set (updated_routers s1))"
       "router_id ri' = r_id r"
    unfolding router_id_set_router rid by blast
  have km': "keys_match s'"
    unfolding s' keys_match_def using km n(3,9)
    by (simp add: keys_match_update keys_match_def)
  have "step_ok (r_id r) s1 s' new"
    unfolding step_ok_def
    using n km' by (simp add: s' update_conv')
  then show ?thesis ..
qed

lemma router_try_unfold:
  "router_try w r s =
     (if \<not> r_admin_state_up r then (s, None)
      else seq (if map_of (router_info s) (r_id r) = None then router_added w (r_id r) r s
                else (s, None))
               (router_try_tail w r))"
  unfolding router_try_def router_try_tail_def by simp

lemma router_try_spec:
  assumes run: "router_try w r s = (s', ex)" and km: "keys_match s"
  shows "\<exists>new. step_ok (r_id r) s s' new \<and> (\<not> r_admin_state_up r \<longrightarrow> s' = s \<and> ex = None)"
proof (cases "r_admin_state_up r")
  case False
  with run have "s' = s" "ex = None" by (simp_all add: router_try_unfold)
  with km False have "step_ok (r_id r) s s' []" by (auto simp: step_ok_def)
  with \<open>s' = s\<close> \<open>ex = None\<close> show ?thesis by blast
next
  case True
  with run have sq: "seq (if map_of (router_info s) (r_id r) = None then router_added w (r_id r) r s
                else (s, None)) (router_try_tail w r) = (s', ex)"
    by (simp add: router_try_unfold)
  show ?thesis
  proof (cases "map_of (router_info s) (r_id r) = None")
    case False
    with sq have "router_try_tail w r s = (s', ex)" by (simp add: seq_def)
    from router_try_tail_spec[OF this km] True show ?thesis by blast
  next
    case none: True
    obtain s1 ex1 where a: "router_added w (r_id r) r s = (s1, ex1)" by fastforce
    note sp = router_added_spec[OF a]
    have ok1: "step_ok (r_id r) s s1 [(RouterAdded (r_id r), ex1)]"
      unfolding step_ok_def sp using km
      by (auto simp: work_for_def keys_match_def keys_match_update update_conv')
    show ?thesis
    proof (cases ex1)
      case (Some e)
      with sq none a have "s' = s1" by (simp add: seq_def)
      with ok1 True show ?thesis by blast
    next
      case None
      with sq none a have t: "router_try_tail w r s1 = (s', ex)" by (simp add: seq_def)
      from ok1 have km1: "keys_match s1" by (simp add: step_ok_def)
      from router_try_tail_spec[OF t km1] obtain new where "step_ok (r_id r) s1 s' new" ..
      from step_ok_trans[OF ok1 this] True show ?thesis by blast
    qed
  qed
qed

lemma grows_refl: "grows s s"
  by (simp add: grows_def)

lemma grows_trans: "grows s s1 \<Longrightarrow> grows s1 s2 \<Longrightarrow> grows s s2"
  by (auto simp: grows_def)

lemma router_try_tail_grows:
  assumes run: "router_try_tail w r s1 = (s', ex)"
  shows "grows s1 s'"
proof (cases "map_of (router_info s1) (r_id r)")
  case None
  with run have "s' = s1" by (simp add: router_try_tail_def)
  then show ?thesis by (simp add: grows_refl)
next
  case (Some ri)
  obtain ri' s2 ex2 where p: "process_router w (set_router r ri, s1) = ((ri', s2), ex2)"
    by (metis surj_pair)
  with run Some have s': "s' = s2\<lparr>router_info := AList.update (r_id r) ri' (router_info s2)\<rparr>"
    by (simp add: router_try_tail_def)
  from process_router_spec[OF p] have "grows s1 s2" unfolding grows_def by blast
  then show ?thesis unfolding s' grows_def by simp
qed

lemma router_try_grows:
  assumes run: "router_try w r s = (s', ex)"
  shows "grows s s'"
proof (cases "r_admin_state_up r")
  case False
  with run have "s' = s" by (simp add: router_try_unfold)
  then show ?thesis by (simp add: grows_refl)
next
  case True
  with run have sq: "seq (if map_of (router_info s) (r_id r) = None then router_added w (r_id r) r s
                else (s, None)) (router_try_tail w r) = (s', ex)"
    by (simp add: router_try_unfold)
  show ?thesis
  proof (cases "map_of (router_info s) (r_id r) = None")
    case False
    with sq have "router_try_tail w r s = (s', ex)" by (simp add: seq_def)
    then show ?thesis by (rule router_try_tail_grows)
  next
    case none: True
    obtain s1 ex1 where a: "router_added w (r_id r) r s = (s1, ex1)" by fastforce
    have g1: "grows s s1" unfolding router_added_spec[OF a] grows_def by simp
    show ?thesis
    proof (cases ex1)
      case (Some e)
      with sq none a have "s' = s1" by (simp add: seq_def)
      with g1 show ?thesis by simp
    next
      case None
      with sq none a have t: "router_try_tail w r s1 = (s', ex)" by (simp add: seq_def)
      from grows_trans[OF g1 router_try_tail_grows[OF t]] show ?thesis .
    qed
  qed
qed

lemma routers_loop_grows:
  "routers_loop w dl rs s = (s', ex) \<Longrightarrow> grows s s'"
proof (induction rs arbitrary: s)
  case Nil
  then show ?case by (simp add: grows_refl)
next
  case (Cons r rs)
  show ?case
  proof (cases "r_id r \<in> set dl")
    case True
    with Cons.prems have "routers_loop w dl rs s = (s', ex)" by simp
    then show ?thesis by (rule Cons.IH)
  next
    case False
    obtain s1 ex1 where t: "router_try w r s = (s1, ex1)" by fastforce
    note g1 = router_try_grows[OF t]
    show ?thesis
    proof (cases ex1)
      case None
      with Cons.prems False t have "routers_loop w dl rs s1 = (s', ex)" by simp
      from grows_trans[OF g1 Cons.IH[OF this]] show ?thesis .
    next
      case (Some e)
      let ?s2 = "s1\<lparr>updated_routers := List.insert (r_id r) (updated_routers s1), fullsync := True\<rparr>"
      have g2: "grows s ?s2" using g1 unfolding grows_def by auto
      show ?thesis
      proof (cases "exc_isinstance e KeyError \<or> exc_isinstance e DriverException")
        case True
        with Cons.prems False t Some have "routers_loop w dl rs ?s2 = (s', ex)"
          by (auto split: if_splits)
        from grows_trans[OF g2 Cons.IH[OF this]] show ?thesis .
      next
        case nh: False
        with Cons.prems False t Some have "s' = s1" by (auto split: if_splits)
        with g1 show ?thesis by simp
      qed
    qed
  qed
qed

section \<open>Evaluating a pass\<close>

lemma get_port_set_diffs_eval:
  "get_port_set_diffs old new =
     (filter (\<lambda>p. \<not> list_ex (\<lambda>q. p_admin_state_up q \<and> p_id q = p_id p) new) old,
      filter (\<lambda>p. list_ex (\<lambda>q. p_admin_state_up q \<and> p_id q = p_id p) new
                  \<and> \<not> list_ex (\<lambda>q. p_id q = p_id p) old) new)"
proof -
  have a: "(i \<in> set (map p_id (filter p_admin_state_up new)))
             = list_ex (\<lambda>q. p_admin_state_up q \<and> p_id q = i) new" for i
    by (induction new) auto
  have b: "(i \<in> set (map p_id old)) = list_ex (\<lambda>q. p_id q = i) old" for i
    by (induction old) auto
  show ?thesis
    unfolding get_port_set_diffs_def Let_def Diff_iff a b by simp
qed

lemmas pass_defs =
  process_service_def process_service_try_def seq_def call_def fetch_router_info_def
  process_routers_def process_routers_try_def router_try_def router_added_def router_removed_def
  process_router_def process_router_try_def call_ri_def get_port_set_diffs_eval
  RouterInfo_init_def set_router_def append_internal_port_def remove_internal_port_def
  append_ha_gw_port_def remove_ha_gw_port_def exc_isinstance_def Let_def
  PhyRouterContext_init_def ctx_steady_def port1_def router1_def router2_def

section \<open>Processing one router: the gateway port\<close>

text \<open>
  C4, as the specification states it, fails: for a router without a gateway port,
  \<^verbatim>\<open>_process_router\<close> still calls \<^verbatim>\<open>_routes_updated\<close>.
\<close>

theorem no_gateway_routes_counterexample:
  "r_gw_port router1 = None
   \<and> trace (snd (fst (process_router world_ok (RouterInfo_init ''r1'' router1, PhyRouterContext_init))))
       = [(SetSubnetInfo port1, None), (InternalNetworkAdded ''r1'' port1, None),
          (RoutesUpdated ''r1'', None)]"
  by (simp add: pass_defs world_ok_def)

text \<open>
  C4, amended. For a router whose desired state has no gateway port, \<^verbatim>\<open>_process_router\<close>
  makes no \<^verbatim>\<open>_process_router_floating_ips\<close> call; route reconciliation is not
  skipped: whenever the call raises nothing, its last call is \<^verbatim>\<open>_routes_updated\<close> for
  this router.
\<close>

theorem process_router_no_gateway:
  assumes gw: "r_gw_port (router ri) = None"
      and run: "process_router w (ri, s) = ((ri', s'), ex)"
  shows "(\<forall>x \<in> set (new_events s s'). \<not> is_floating_ips_event (fst x))
       \<and> (ex = None \<longrightarrow> new_events s s' \<noteq> []
             \<and> last (new_events s s') = (RoutesUpdated (router_id ri), None))"
proof -
  from run obtain st1 where t: "process_router_try w (ri, s) = (st1, ex)"
    and tr: "trace s' = trace (snd st1)"
    by (cases rule: process_router_cases) auto
  from process_router_try_events[OF t, of "\<lambda>ev. \<not> is_floating_ips_event ev"] gw
  obtain new where n: "appended s new (snd st1)" "\<forall>x\<in>set new. \<not> is_floating_ips_event (fst x)"
    "ex = None \<longrightarrow> new \<noteq> [] \<and> last new = (RoutesUpdated (router_id ri), None)"
    by auto
  from n(1) tr have "new_events s s' = new" by (simp add: appended_def new_events_def)
  with n show ?thesis by simp
qed

theorem process_router_no_gateway_witness:
  "r_gw_port (router (RouterInfo_init ''r1'' router1)) = None
   \<and> new_events PhyRouterContext_init
        (snd (fst (process_router world_ok (RouterInfo_init ''r1'' router1, PhyRouterContext_init))))
       = [(SetSubnetInfo port1, None), (InternalNetworkAdded ''r1'' port1, None),
          (RoutesUpdated ''r1'', None)]
   \<and> last (new_events PhyRouterContext_init
        (snd (fst (process_router world_ok (RouterInfo_init ''r1'' router1, PhyRouterContext_init)))))
       = (RoutesUpdated (router_id (RouterInfo_init ''r1'' router1)), None)"
proof -
  have g: "r_gw_port (router (RouterInfo_init ''r1'' router1)) = None"
    by (simp add: pass_defs)
  have r: "process_router world_ok (RouterInfo_init ''r1'' router1, PhyRouterContext_init)
             = ((fst (fst (process_router world_ok (RouterInfo_init ''r1'' router1, PhyRouterContext_init))),
                 snd (fst (process_router world_ok (RouterInfo_init ''r1'' router1, PhyRouterContext_init)))),
                None)"
    by (simp add: pass_defs world_ok_def)
  have n: "new_events PhyRouterContext_init
        (snd (fst (process_router world_ok (RouterInfo_init ''r1'' router1, PhyRouterContext_init))))
       = [(SetSubnetInfo port1, None), (InternalNetworkAdded ''r1'' port1, None),
          (RoutesUpdated ''r1'', None)]"
    by (simp add: pass_defs world_ok_def new_events_def)
  from process_router_no_gateway[OF g r] g n show ?thesis by simp
qed

section \<open>The pass of one device: errors\<close>

text \<open>An exception that reaches the handler of \<^verbatim>\<open>process_service\<close> sets the flag.\<close>

lemma process_service_raised_sets_fullsync:
  "process_service_try w s = (s1, Some e) \<Longrightarrow> fullsync (process_service w s)"
  by (simp add: process_service_def)

text \<open>
  C3. A full-resync pass in which an internal error occurs: the plugin returns one router,
  and adding its port raises an exception that is neither a DriverException nor a
  KeyError. The catch-all handler of \<^verbatim>\<open>_process_routers\<close> swallows it (the device id
  goes to \<^verbatim>\<open>sync_devices\<close>), \<^verbatim>\<open>process_service\<close> goes on to \<^verbatim>\<open>clear_fullsync\<close>
  and returns with the flag cleared, although the port was never added.
\<close>

theorem full_resync_internal_error_clears_flag:
  "fullsync PhyRouterContext_init
   \<and> process_service world_add_fails PhyRouterContext_init =
     \<lparr>router_info = [(''r1'', RouterInfo_init ''r1'' router1)],
      updated_routers = [], removed_routers = [], sync_devices = [0], fullsync = False,
      trace = [(SendEmptyCfg, None), (FetchAllRouters, None), (DeleteInvalidCfg, None),
               (PrepareFullsync, None), (RouterAdded ''r1'', None), (SetSubnetInfo port1, None),
               (InternalNetworkAdded ''r1'' port1, Some PyException), (ClearFullsync, None)]\<rparr>"
  by (simp add: pass_defs world_add_fails_def)

section \<open>The main loop: a driver error on one router\<close>

text \<open>
  C7. When processing router \<open>r\<close> in the main loop of \<^verbatim>\<open>_process_routers\<close> raises a
  DriverException, the loop goes on with the remaining routers, from a state in which the
  id of \<open>r\<close> is in \<^verbatim>\<open>updated_routers\<close> and \<^verbatim>\<open>fullsync\<close> is set; and both still
  hold when the loop ends, whatever happens to the remaining routers.
\<close>

theorem driver_exception_requeues_and_continues:
  assumes "r_id r \<notin> set deleted_id_list"
      and "router_try w r s = (s1, Some e)"
      and "exc_isinstance e DriverException"
  shows "routers_loop w deleted_id_list (r # rs) s =
           routers_loop w deleted_id_list rs
             (s1\<lparr>updated_routers := List.insert (r_id r) (updated_routers s1), fullsync := True\<rparr>)
       \<and> r_id r \<in> set (updated_routers (fst (routers_loop w deleted_id_list (r # rs) s)))
       \<and> fullsync (fst (routers_loop w deleted_id_list (r # rs) s))"
proof -
  let ?s2 = "s1\<lparr>updated_routers := List.insert (r_id r) (updated_routers s1), fullsync := True\<rparr>"
  have eq: "routers_loop w deleted_id_list (r # rs) s = routers_loop w deleted_id_list rs ?s2"
    using assms by simp
  obtain s' ex where r: "routers_loop w deleted_id_list rs ?s2 = (s', ex)" by fastforce
  from routers_loop_grows[OF r] have "r_id r \<in> set (updated_routers s')" "fullsync s'"
    unfolding grows_def by auto
  with eq r show ?thesis by simp
qed

theorem driver_exception_requeues_and_continues_witness:
  "r_id router1 \<notin> set []
   \<and> router_try world_driver_fails router1 ctx_steady
       = (\<lparr>router_info = [(''r1'', RouterInfo_init ''r1'' router1)],
           updated_routers = [''r1''], removed_routers = [], sync_devices = [], fullsync = False,
           trace = [(RouterAdded ''r1'', None), (SetSubnetInfo port1, None),
                    (InternalNetworkAdded ''r1'' port1, Some DriverException)]\<rparr>,
          Some DriverException)
   \<and> exc_isinstance DriverException DriverException
   \<and> routers_loop world_driver_fails [] [router1, router2] ctx_steady
       = (\<lparr>router_info = [(''r1'', RouterInfo_init ''r1'' router1),
                           (''r2'', (RouterInfo_init ''r2'' router2)\<lparr>ex_gw_port := None\<rparr>)],
           updated_routers = [''r1''], removed_routers = [], sync_devices = [], fullsync = True,
           trace = [(RouterAdded ''r1'', None), (SetSubnetInfo port1, None),
                    (InternalNetworkAdded ''r1'' port1, Some DriverException),
                    (RouterAdded ''r2'', None), (RoutesUpdated ''r2'', None)]\<rparr>,
          None)"
proof -
  have t: "router_try world_driver_fails router1 ctx_steady
       = (\<lparr>router_info = [(''r1'', RouterInfo_init ''r1'' router1)],
           updated_routers = [''r1''], removed_routers = [], sync_devices = [], fullsync = False,
           trace = [(RouterAdded ''r1'', None), (SetSubnetInfo port1, None),
                    (InternalNetworkAdded ''r1'' port1, Some DriverException)]\<rparr>,
          Some DriverException)"
    by (simp add: pass_defs world_driver_fails_def)
  have i: "exc_isinstance DriverException DriverException" by (simp add: exc_isinstance_def)
  have n: "r_id router1 \<notin> set []" by simp
  from driver_exception_requeues_and_continues[OF n t i, of "[router2]"] t i
  show ?thesis
    by (simp add: pass_defs world_driver_fails_def)
qed



















end
